theory Spec2Isabelle
  imports Main
begin

section \<open>Data model (types.ts)\<close>

text \<open>
  The enums and interfaces of \<^verbatim>\<open>types.ts\<close>. Optional fields
  (\<^verbatim>\<open>raw?\<close>, \<^verbatim>\<open>agentThoughts?\<close>, \<^verbatim>\<open>fixAction?\<close>,
  \<^verbatim>\<open>relatedLogIds?\<close>) are options, \<open>None\<close> standing for
  \<^verbatim>\<open>undefined\<close>. Both interfaces have an \<^verbatim>\<open>id\<close> and a
  \<^verbatim>\<open>timestamp\<close>; the fields are told apart by a prefix. A timestamp holds the
  instant (milliseconds, what \<^verbatim>\<open>Date.now()\<close> reads) whose ISO rendering the
  source stores; no function of the program ever inspects that string.
\<close>

datatype LogLevel = INFO | WARNING | ERROR | CRITICAL | SUCCESS

record LogEntry =
  log_id :: string
  log_timestamp :: nat
  service :: string
  level :: LogLevel
  message :: string
  raw :: "string option"

datatype Severity = low | medium | high | critical

datatype Status = active | investigating | healing | resolved

record SystemAlert =
  alert_id :: string
  title :: string
  description :: string
  severity :: Severity
  status :: Status
  affectedService :: string
  alert_timestamp :: nat
  agentThoughts :: "string list option"
  fixAction :: "string option"
  relatedLogIds :: "string list option"

section \<open>The inference service boundary (services/geminiService.ts)\<close>

text \<open>
  A call of \<^verbatim>\<open>ai.models.generateContent\<close> followed by \<^verbatim>\<open>JSON.parse\<close>
  sits in a \<^verbatim>\<open>try\<close> block. Its outcome is the environment's choice: either
  something in the block raises (\<open>Raises\<close>: network error, timeout, unparseable text)
  or the parsed value comes back (\<open>Replies\<close>), taken at the type the function declares
  (a reply that lacks a field of that type, such as the \<^verbatim>\<open>{}\<close> substituted for an
  empty text, is outside the model).
\<close>

datatype 'a Reply = Raises | Replies 'a

text \<open>
  \<^verbatim>\<open>process.env.API_KEY\<close> is a string or undefined; \<^verbatim>\<open>!apiKey\<close> holds
  for undefined and for the empty string.
\<close>

definition falsy :: "string option \<Rightarrow> bool" where
  "falsy apiKey = (case apiKey of None \<Rightarrow> True | Some k \<Rightarrow> k = [])"

text \<open>Decimal rendering of a number inside a template literal.\<close>

fun show_nat :: "nat \<Rightarrow> string" where
  "show_nat n =
     (if n < 10 then [''0123456789'' ! n]
      else show_nat (n div 10) @ [''0123456789'' ! (n mod 10)])"

declare show_nat.simps [simp del]

text \<open>The properties the response schema of \<^verbatim>\<open>analyzeForAlerts\<close> asks for.\<close>

record AlertDraft =
  draft_title :: string
  draft_description :: string
  draft_severity :: Severity
  draft_affectedService :: string
  draft_suggestedFix :: string
  draft_relatedLogIds :: "string list option"

definition problematic :: "LogEntry \<Rightarrow> bool" where
  "problematic l = (level l = ERROR \<or> level l = CRITICAL \<or> level l = WARNING)"

text \<open>
  \<^verbatim>\<open>parsed.map((a, idx) => ({...a, id, status: 'active', timestamp, agentThoughts: []}))\<close>:
  the draft's fields are spread first, then identifier, status, timestamp and thoughts
  are written over whatever the draft held. \<open>now\<close> is the reading of
  \<^verbatim>\<open>Date.now()\<close> when the reply is mapped (one reading for the whole reply).
  The schema has no \<^verbatim>\<open>fixAction\<close>, so a new alert has none, and
  \<^verbatim>\<open>suggestedFix\<close> is no field of \<^verbatim>\<open>SystemAlert\<close>.
\<close>

definition materialize :: "nat \<Rightarrow> AlertDraft \<times> nat \<Rightarrow> SystemAlert" where
  "materialize now p =
     (case p of (a, idx) \<Rightarrow>
       \<lparr> alert_id = ''alert-'' @ show_nat now @ ''-'' @ show_nat idx,
         title = draft_title a,
         description = draft_description a,
         severity = draft_severity a,
         status = active,
         affectedService = draft_affectedService a,
         alert_timestamp = now,
         agentThoughts = Some [],
         fixAction = None,
         relatedLogIds = draft_relatedLogIds a \<rparr>)"

definition analyzeForAlerts ::
  "string option \<Rightarrow> AlertDraft list Reply \<Rightarrow> nat \<Rightarrow> LogEntry list \<Rightarrow> SystemAlert list" where
  "analyzeForAlerts apiKey reply now logs =
     (if falsy apiKey \<or> length logs = 0 then []
      else if length (filter problematic logs) = 0 then []
      else (case reply of
              Raises \<Rightarrow> []
            | Replies parsed \<Rightarrow> map (materialize now) (zip parsed [0 ..< length parsed])))"

record Diagnosis =
  thoughts :: string
  action :: string
  success :: bool

text \<open>
  \<^verbatim>\<open>agentDiagnoseAndHeal\<close>. The last argument and the second component of the result
  count the requests sent to the inference service, so that "no call is made" is a
  statement about the function.
\<close>

definition agentDiagnoseAndHeal ::
  "string option \<Rightarrow> Diagnosis Reply \<Rightarrow> SystemAlert \<Rightarrow> nat \<Rightarrow> Diagnosis \<times> nat" where
  "agentDiagnoseAndHeal apiKey reply alert calls =
     (if falsy apiKey
      then (\<lparr> thoughts = ''API Key missing.'', action = ''None'', success = False \<rparr>, calls)
      else (case reply of
              Raises \<Rightarrow>
                (\<lparr> thoughts = ''Agent process failed.'',
                   action = ''Manual intervention required'',
                   success = False \<rparr>, Suc calls)
            | Replies d \<Rightarrow> (d, Suc calls)))"

section \<open>The related-logs view (App.tsx)\<close>

text \<open>
  \<^verbatim>\<open>handleViewRelatedLogs\<close> computes the value given to
  \<^verbatim>\<open>setLogFilterIds\<close> (\<open>None\<close> is \<^verbatim>\<open>null\<close>);
  \<^verbatim>\<open>displayedLogs\<close> is the memoised list the log view renders.
\<close>

definition handleViewRelatedLogs :: "LogEntry list \<Rightarrow> SystemAlert \<Rightarrow> string list option" where
  "handleViewRelatedLogs logs alert =
     (if (case relatedLogIds alert of None \<Rightarrow> False | Some ids \<Rightarrow> length ids > 0)
      then relatedLogIds alert
      else (let relevantLogs =
                  map log_id
                    (filter (\<lambda>l. service l = affectedService alert \<and>
                                 (level l = ERROR \<or> level l = CRITICAL \<or> level l = WARNING))
                       logs)
            in if length relevantLogs > 0 then Some relevantLogs else None))"

definition displayedLogs :: "LogEntry list \<Rightarrow> string list option \<Rightarrow> LogEntry list" where
  "displayedLogs logs logFilterIds =
     (case logFilterIds of
        None \<Rightarrow> logs
      | Some ids \<Rightarrow> filter (\<lambda>l. log_id l \<in> set ids) logs)"

text \<open>The view an alert's "view logs" button leads to: the filter is set, then rendered.\<close>

definition relatedLogs :: "SystemAlert \<Rightarrow> LogEntry list \<Rightarrow> LogEntry list" where
  "relatedLogs alert logs = displayedLogs logs (handleViewRelatedLogs logs alert)"

text \<open>The predicate of the fallback path, named for the statements below.\<close>

definition relevant :: "SystemAlert \<Rightarrow> LogEntry \<Rightarrow> bool" where
  "relevant alert l =
     (service l = affectedService alert \<and>
      (level l = WARNING \<or> level l = ERROR \<or> level l = CRITICAL))"

definition noRelatedIds :: "SystemAlert \<Rightarrow> bool" where
  "noRelatedIds alert = (relatedLogIds alert = None \<or> relatedLogIds alert = Some [])"

section \<open>The agent monitoring effect (App.tsx)\<close>

text \<open>
  The body of \<^verbatim>\<open>monitorLogs\<close>, run by the effect that depends on the log list,
  up to its \<^verbatim>\<open>await\<close>. The result is the argument of the call of
  \<^verbatim>\<open>analyzeForAlerts\<close> (whose awaited result is handed to \<^verbatim>\<open>setAlerts\<close>), or
  \<open>None\<close> when the function returns without calling the detector.
\<close>

definition hasErrors :: "LogEntry list \<Rightarrow> bool" where
  "hasErrors logs = list_ex (\<lambda>l. level l = ERROR \<or> level l = CRITICAL) logs"

definition monitorLogs :: "LogEntry list \<Rightarrow> SystemAlert list \<Rightarrow> LogEntry list option" where
  "monitorLogs logs alerts =
     (if length logs = 0 then None
      else if hasErrors logs \<and> length alerts = 0 then Some logs
      else None)"

section \<open>The self-healing effect (App.tsx)\<close>

text \<open>
  The state updaters \<^verbatim>\<open>healSystem\<close> passes to \<^verbatim>\<open>setAlerts\<close> and
  \<^verbatim>\<open>setLogs\<close>, in the order of the loop body. \<open>alert\<close> is the loop variable, an
  element of the list \<^verbatim>\<open>activeAlerts\<close> computed when the effect ran; \<open>prev\<close> is the
  store's value when React applies the updater.
\<close>

definition markHealing :: "SystemAlert \<Rightarrow> SystemAlert list \<Rightarrow> SystemAlert list" where
  "markHealing alert prev =
     map (\<lambda>a. if alert_id a = alert_id alert then a\<lparr>status := healing\<rparr> else a) prev"

definition applyPlan :: "SystemAlert \<Rightarrow> Diagnosis \<Rightarrow> SystemAlert list \<Rightarrow> SystemAlert list" where
  "applyPlan alert diagnosis prev =
     map (\<lambda>a. if alert_id a = alert_id alert
              then a\<lparr>agentThoughts := Some [thoughts diagnosis],
                     fixAction := Some (action diagnosis)\<rparr>
              else a) prev"

definition markResolved :: "SystemAlert \<Rightarrow> SystemAlert list \<Rightarrow> SystemAlert list" where
  "markResolved alert prev =
     map (\<lambda>a. if alert_id a = alert_id alert then a\<lparr>status := resolved\<rparr> else a) prev"

definition successLog :: "nat \<Rightarrow> SystemAlert \<Rightarrow> Diagnosis \<Rightarrow> LogEntry" where
  "successLog now alert diagnosis =
     \<lparr> log_id = ''sys-'' @ show_nat now,
       log_timestamp = now,
       service = ''Sentinel-Agent'',
       level = SUCCESS,
       message = ''Resolved alert: '' @ title alert @ ''. Action Taken: '' @ action diagnosis,
       raw = None \<rparr>"

text \<open>
  One pass of the loop body for \<open>alert\<close> on the pair (Alert Store, Log Store), with no
  other writer in between: mark as healing, (pause), diagnose, record the plan, (pause),
  resolve when the diagnosis reports success. \<open>now\<close> is the clock reading at the
  resolution step.
\<close>

definition resolveStep ::
  "nat \<Rightarrow> SystemAlert \<Rightarrow> Diagnosis \<Rightarrow> SystemAlert list \<times> LogEntry list
     \<Rightarrow> SystemAlert list \<times> LogEntry list" where
  "resolveStep now alert diagnosis st =
     (if success diagnosis
      then (markResolved alert (fst st), snd st @ [successLog now alert diagnosis])
      else st)"

definition healAlert ::
  "string option \<Rightarrow> Diagnosis Reply \<Rightarrow> nat \<Rightarrow> SystemAlert
     \<Rightarrow> SystemAlert list \<times> LogEntry list \<Rightarrow> SystemAlert list \<times> LogEntry list" where
  "healAlert apiKey reply now alert st =
     (let diagnosis = fst (agentDiagnoseAndHeal apiKey reply alert 0)
      in resolveStep now alert diagnosis
           (applyPlan alert diagnosis (markHealing alert (fst st)), snd st))"

section \<open>The application as an event machine (App.tsx)\<close>

text \<open>
  The component's state and its asynchronous functions, one atomic step per event of
  the JavaScript event loop. Between two \<^verbatim>\<open>await\<close>s a function runs without
  interruption; a step is one such stretch together with the effects React runs after
  the state updates it made.

  A \<open>Run\<close> is one invocation of \<^verbatim>\<open>healSystem\<close>: the loop variable
  \<^verbatim>\<open>alert\<close>, the rest of \<^verbatim>\<open>activeAlerts\<close> (the list filtered once, from the
  \<^verbatim>\<open>alerts\<close> of the render whose effect started the run), and the \<^verbatim>\<open>await\<close> the
  run is suspended at: the 2000 ms timer (with the time it is due), the call of
  \<^verbatim>\<open>agentDiagnoseAndHeal\<close>, or the 4000 ms timer (with the diagnosis held in the
  local variable). \<open>analyses\<close> holds the argument of every call of
  \<^verbatim>\<open>analyzeForAlerts\<close> that \<^verbatim>\<open>monitorLogs\<close> is awaiting.
\<close>

datatype Phase = Thinking nat | Diagnosing | Acting nat Diagnosis | Finished

record Run =
  current :: SystemAlert
  remaining :: "SystemAlert list"
  phase :: Phase

record App =
  logStore :: "LogEntry list"
  alertStore :: "SystemAlert list"
  healRuns :: "Run list"
  analyses :: "LogEntry list list"
  clock :: nat

text \<open>
  The effect with dependency \<^verbatim>\<open>[logs]\<close>: React runs it after a render in which the
  log list is a new array.
\<close>

definition monitorEffect :: "App \<Rightarrow> App" where
  "monitorEffect s =
     (case monitorLogs (logStore s) (alertStore s) of
        None \<Rightarrow> s
      | Some logs \<Rightarrow> s\<lparr>analyses := analyses s @ [logs]\<rparr>)"

text \<open>
  The effect with dependency \<^verbatim>\<open>[alerts]\<close>. Every updater of the program builds a
  new array (\<^verbatim>\<open>prev.map\<close>), so the effect runs after each of them, on the list just
  committed. When that list has an active alert it calls \<^verbatim>\<open>healSystem\<close>, which runs
  up to its first \<^verbatim>\<open>await\<close>: it filters the active alerts, enters the loop with the
  first one and marks it as healing. That update commits, and the effect runs again on
  the new list; the recursion is this chain of renders.
\<close>

function healEffect :: "App \<Rightarrow> App" where
  "healEffect s =
     (case filter (\<lambda>a. status a = active) (alertStore s) of
        [] \<Rightarrow> s
      | alert # rest \<Rightarrow>
          healEffect
            (s\<lparr>alertStore := markHealing alert (alertStore s),
               healRuns := healRuns s @
                 [\<lparr>current = alert, remaining = rest, phase = Thinking (clock s + 2000)\<rparr>]\<rparr>))"
  by pat_completeness auto

lemma markHealing_active_le:
  "length (filter (\<lambda>a. status a = active) (markHealing alert xs))
     \<le> length (filter (\<lambda>a. status a = active) xs)"
  by (induction xs) (auto simp: markHealing_def)

lemma markHealing_active_less:
  "alert \<in> set xs \<Longrightarrow> status alert = active \<Longrightarrow>
   length (filter (\<lambda>a. status a = active) (markHealing alert xs))
     < length (filter (\<lambda>a. status a = active) xs)"
proof (induction xs)
  case Nil
  then show ?case by simp
next
  case (Cons x xs)
  show ?case
  proof (cases "alert \<in> set xs")
    case True
    from Cons.IH [OF True Cons.prems(2)] show ?thesis
      by (auto simp: markHealing_def)
  next
    case False
    with Cons.prems have "x = alert" "status x = active"
      by auto
    then show ?thesis
      using markHealing_active_le [of alert xs]
      by (auto simp: markHealing_def le_imp_less_Suc)
  qed
qed

termination healEffect
proof (relation "measure (\<lambda>s. length (filter (\<lambda>a. status a = active) (alertStore s)))")
  show "wf (measure (\<lambda>s. length (filter (\<lambda>a. status a = active) (alertStore s))))"
    by simp
next
  fix s :: App and alert rest
  assume "filter (\<lambda>a. status a = active) (alertStore s) = alert # rest"
  then have "alert \<in> set (filter (\<lambda>a. status a = active) (alertStore s))"
    by simp
  then have "alert \<in> set (alertStore s)" "status alert = active"
    by simp_all
  from markHealing_active_less [OF this]
  show "(s\<lparr>alertStore := markHealing alert (alertStore s),
            healRuns := healRuns s @
              [\<lparr>current = alert, remaining = rest, phase = Thinking (clock s + 2000)\<rparr>]\<rparr>, s)
        \<in> measure (\<lambda>s. length (filter (\<lambda>a. status a = active) (alertStore s)))"
    by simp
qed

declare healEffect.simps [simp del]

text \<open>The heartbeat record of \<^verbatim>\<open>handleRefresh\<close>.\<close>

definition heartbeat :: "nat \<Rightarrow> LogEntry" where
  "heartbeat now =
     \<lparr> log_id = ''live-'' @ show_nat now,
       log_timestamp = now,
       service = ''System Monitor'',
       level = INFO,
       message = ''Heartbeat check passed. System metrics validated.'',
       raw = None \<rparr>"

text \<open>
  The events. The payload of an event is what the environment decides: the records
  \<^verbatim>\<open>parseRawLogs\<close> or \<^verbatim>\<open>generateEnterpriseLogs\<close> returned, the reply of the
  inference service. The number in \<open>AnalysisReturns\<close> picks a pending analysis, the
  number in the last three a run.
  \<^item> \<open>FileUpload\<close>: \<^verbatim>\<open>reader.onload\<close> after \<^verbatim>\<open>parseRawLogs\<close> has returned.
  \<^item> \<open>EnterpriseScenario\<close>: the 800 ms timer of \<^verbatim>\<open>handleEnterpriseScenario\<close>.
    The click is not modelled, so the button's \<^verbatim>\<open>disabled\<close> condition, read at the
    click, is no guard here.
  \<^item> \<open>Refresh\<close>: \<^verbatim>\<open>handleRefresh\<close> after its 800 ms pause.
  \<^item> \<open>ResetData\<close>: the Reset Data button, rendered while the log list is non-empty.
  \<^item> \<open>AnalysisReturns\<close>: \<^verbatim>\<open>monitorLogs\<close> resumes with the detector's result.
  \<^item> \<open>ThinkingElapsed\<close>, \<open>DiagnosisReturns\<close>, \<open>ActionElapsed\<close>: a run of
    \<^verbatim>\<open>healSystem\<close> resumes from its first, second, third \<^verbatim>\<open>await\<close>.
\<close>

datatype Event =
    FileUpload "LogEntry list"
  | EnterpriseScenario "LogEntry list"
  | Refresh
  | ResetData
  | AnalysisReturns nat "AlertDraft list Reply"
  | ThinkingElapsed nat
  | DiagnosisReturns nat "Diagnosis Reply"
  | ActionElapsed nat

text \<open>\<^verbatim>\<open>setLogs(prev => [...prev, ...new])\<close>, then the effect on the log list.\<close>

definition appendLogs :: "LogEntry list \<Rightarrow> App \<Rightarrow> App" where
  "appendLogs new s = monitorEffect (s\<lparr>logStore := logStore s @ new\<rparr>)"

text \<open>
  Run \<open>i\<close> has its diagnosis: "Update Alert with agent's plan", then the 4000 ms
  timer is set.
\<close>

definition recordPlan :: "nat \<Rightarrow> Diagnosis \<Rightarrow> App \<Rightarrow> App" where
  "recordPlan i diagnosis s =
     (let r = healRuns s ! i
      in healEffect
           (s\<lparr>alertStore := applyPlan (current r) diagnosis (alertStore s),
              healRuns := (healRuns s)[i := r\<lparr>phase := Acting (clock s + 4000) diagnosis\<rparr>]\<rparr>))"

text \<open>
  Run \<open>i\<close> resumes after the action delay: the resolution step, then the loop goes on
  in the same stretch, either ending or entering the next iteration (next element of
  its own \<^verbatim>\<open>activeAlerts\<close>, marked as healing, 2000 ms timer set). The updates of
  the stretch commit together; the effects run for the lists that were replaced.
\<close>

definition finishPass :: "nat \<Rightarrow> Diagnosis \<Rightarrow> App \<Rightarrow> App" where
  "finishPass i diagnosis s =
     (let r = healRuns s ! i;
          st = resolveStep (clock s) (current r) diagnosis (alertStore s, logStore s);
          s1 = s\<lparr>alertStore := fst st, logStore := snd st\<rparr>;
          s2 = (case remaining r of
                  [] \<Rightarrow> s1\<lparr>healRuns := (healRuns s1)[i := r\<lparr>phase := Finished\<rparr>]\<rparr>
                | next # rest \<Rightarrow>
                    s1\<lparr>alertStore := markHealing next (alertStore s1),
                       healRuns := (healRuns s1)
                         [i := \<lparr>current = next, remaining = rest,
                                phase = Thinking (clock s + 2000)\<rparr>]\<rparr>);
          s3 = (if success diagnosis then monitorEffect s2 else s2)
      in if success diagnosis \<or> remaining r \<noteq> [] then healEffect s3 else s3)"

text \<open>
  What an event does at the current clock reading; \<open>None\<close> when the event cannot
  happen in this state (no such run or analysis, the run is suspended elsewhere, the
  timer is not yet due, the button is not rendered).
\<close>

fun fire :: "string option \<Rightarrow> Event \<Rightarrow> App \<Rightarrow> App option" where
  "fire apiKey (FileUpload parsed) s = Some (appendLogs parsed s)"
| "fire apiKey (EnterpriseScenario enterpriseLogs) s = Some (appendLogs enterpriseLogs s)"
| "fire apiKey Refresh s = Some (appendLogs [heartbeat (clock s)] s)"
| "fire apiKey ResetData s =
     (if length (logStore s) > 0
      then Some (healEffect (monitorEffect (s\<lparr>logStore := [], alertStore := []\<rparr>)))
      else None)"
| "fire apiKey (AnalysisReturns i reply) s =
     (if i < length (analyses s)
      then Some (healEffect
                  (s\<lparr>alertStore := analyzeForAlerts apiKey reply (clock s) (analyses s ! i),
                     analyses := take i (analyses s) @ drop (Suc i) (analyses s)\<rparr>))
      else None)"
| "fire apiKey (ThinkingElapsed i) s =
     (if i < length (healRuns s)
      then (case phase (healRuns s ! i) of
              Thinking due \<Rightarrow>
                if due \<le> clock s
                then Some (if falsy apiKey
                           then recordPlan i
                                  (fst (agentDiagnoseAndHeal apiKey Raises
                                          (current (healRuns s ! i)) 0)) s
                           else s\<lparr>healRuns := (healRuns s)
                                    [i := (healRuns s ! i)\<lparr>phase := Diagnosing\<rparr>]\<rparr>)
                else None
            | _ \<Rightarrow> None)
      else None)"
| "fire apiKey (DiagnosisReturns i reply) s =
     (if i < length (healRuns s)
      then (case phase (healRuns s ! i) of
              Diagnosing \<Rightarrow>
                Some (recordPlan i
                        (fst (agentDiagnoseAndHeal apiKey reply (current (healRuns s ! i)) 0)) s)
            | _ \<Rightarrow> None)
      else None)"
| "fire apiKey (ActionElapsed i) s =
     (if i < length (healRuns s)
      then (case phase (healRuns s ! i) of
              Acting due diagnosis \<Rightarrow>
                if due \<le> clock s then Some (finishPass i diagnosis s) else None
            | _ \<Rightarrow> None)
      else None)"

text \<open>
  An event comes with the time it happens at (milliseconds). Time does not run
  backwards, and a timer fires no earlier than it is due; a reply of the inference
  service may take any time.
\<close>

definition step :: "string option \<Rightarrow> nat \<times> Event \<Rightarrow> App \<Rightarrow> App option" where
  "step apiKey e s =
     (if fst e < clock s then None else fire apiKey (snd e) (s\<lparr>clock := fst e\<rparr>))"

fun exec :: "string option \<Rightarrow> (nat \<times> Event) list \<Rightarrow> App \<Rightarrow> App option" where
  "exec apiKey [] s = Some s"
| "exec apiKey (e # es) s =
     (case step apiKey e s of None \<Rightarrow> None | Some s' \<Rightarrow> exec apiKey es s')"

text \<open>The states an observer sees: the start and the state after each event.\<close>

fun observe :: "string option \<Rightarrow> (nat \<times> Event) list \<Rightarrow> App \<Rightarrow> App list option" where
  "observe apiKey [] s = Some [s]"
| "observe apiKey (e # es) s =
     (case step apiKey e s of
        None \<Rightarrow> None
      | Some s' \<Rightarrow> map_option ((#) s) (observe apiKey es s'))"

text \<open>The component as mounted: \<^verbatim>\<open>useState([])\<close> for both stores.\<close>

definition mounted :: App where
  "mounted = \<lparr> logStore = [], alertStore = [], healRuns = [], analyses = [], clock = 0 \<rparr>"

text \<open>
  Observations: the alerts whose healing sequence a run is inside of, the alerts a call
  of \<^verbatim>\<open>agentDiagnoseAndHeal\<close> is in progress for (one entry per run), the
  status, the \<open>fixAction\<close> and the thoughts of the stored alerts with a given
  identifier, and the messages of the SUCCESS records in the Log Store.
\<close>

definition healingInFlight :: "App \<Rightarrow> string list" where
  "healingInFlight s =
     map (\<lambda>r. alert_id (current r)) (filter (\<lambda>r. phase r \<noteq> Finished) (healRuns s))"

definition diagnosesInProgress :: "App \<Rightarrow> string list" where
  "diagnosesInProgress s =
     map (\<lambda>r. alert_id (current r)) (filter (\<lambda>r. phase r = Diagnosing) (healRuns s))"

definition statusOf :: "string \<Rightarrow> App \<Rightarrow> Status list" where
  "statusOf i s = map status (filter (\<lambda>a. alert_id a = i) (alertStore s))"

definition fixActionOf :: "string \<Rightarrow> App \<Rightarrow> string option list" where
  "fixActionOf i s = map fixAction (filter (\<lambda>a. alert_id a = i) (alertStore s))"

definition successMessages :: "App \<Rightarrow> string list" where
  "successMessages s = map message (filter (\<lambda>l. level l = SUCCESS) (logStore s))"

definition thoughtsOf :: "string \<Rightarrow> App \<Rightarrow> string list option list" where
  "thoughtsOf i s = map agentThoughts (filter (\<lambda>a. alert_id a = i) (alertStore s))"

section \<open>Sample records\<close>

definition mkLog :: "string \<Rightarrow> string \<Rightarrow> LogLevel \<Rightarrow> LogEntry" where
  "mkLog i s lv =
     \<lparr> log_id = i, log_timestamp = 0, service = s, level = lv,
       message = ''m'', raw = None \<rparr>"

definition mkAlert :: "string \<Rightarrow> string \<Rightarrow> string list option \<Rightarrow> SystemAlert" where
  "mkAlert i s ids =
     \<lparr> alert_id = i, title = ''Pipe stalled'', description = ''d'', severity = high,
       status = active, affectedService = s, alert_timestamp = 0,
       agentThoughts = Some [], fixAction = None, relatedLogIds = ids \<rparr>"

definition mkDraft :: "string \<Rightarrow> string \<Rightarrow> AlertDraft" where
  "mkDraft t s =
     \<lparr> draft_title = t, draft_description = ''d'', draft_severity = high,
       draft_affectedService = s, draft_suggestedFix = ''f'',
       draft_relatedLogIds = None \<rparr>"

definition backfill :: Diagnosis where
  "backfill = \<lparr> thoughts = ''t'', action = ''Trigger Backfill'', success = True \<rparr>"

text \<open>
  Two error records are loaded, the detector's reply holds two drafts (alerts
  \<open>alert-1000-0\<close> and \<open>alert-1000-1\<close>), and 2000 ms later both runs that the healing
  effect started call \<^verbatim>\<open>agentDiagnoseAndHeal\<close>.
\<close>

definition twoAlerts :: "(nat \<times> Event) list" where
  "twoAlerts =
     [(800, EnterpriseScenario
              [mkLog ''ent-1'' ''AWS Glue'' ERROR, mkLog ''ent-2'' ''Snowflake'' CRITICAL]),
      (1000, AnalysisReturns 0
               (Replies [mkDraft ''Glue OOM'' ''AWS Glue'', mkDraft ''Pipe stalled'' ''Snowflake''])),
      (3000, ThinkingElapsed 0),
      (3000, ThinkingElapsed 1)]"

section \<open>Properties of the related-logs view\<close>

lemma relatedLogs_primary:
  "relatedLogIds alert = Some ids \<Longrightarrow> ids \<noteq> [] \<Longrightarrow>
   relatedLogs alert logs = filter (\<lambda>l. log_id l \<in> set ids) logs"
  by (simp add: relatedLogs_def handleViewRelatedLogs_def displayedLogs_def)

lemma handleViewRelatedLogs_fallback:
  "noRelatedIds alert \<Longrightarrow>
   handleViewRelatedLogs logs alert =
     (if filter (relevant alert) logs = [] then None
      else Some (map log_id (filter (relevant alert) logs)))"
proof -
  have eq: "(\<lambda>l. service l = affectedService alert \<and>
                 (level l = ERROR \<or> level l = CRITICAL \<or> level l = WARNING))
            = relevant alert"
    by (auto simp: relevant_def fun_eq_iff)
  assume "noRelatedIds alert"
  then show ?thesis
    unfolding handleViewRelatedLogs_def eq noRelatedIds_def
    by (auto simp: Let_def)
qed

text \<open>
  With pairwise distinct identifiers, selecting by the identifiers of the records that
  satisfy a predicate selects exactly those records.
\<close>

lemma filter_by_ids_of_filter:
  "distinct (map log_id logs) \<Longrightarrow>
   filter (\<lambda>l. log_id l \<in> log_id ` set (filter P logs)) logs = filter P logs"
proof -
  assume d: "distinct (map log_id logs)"
  have "\<And>l. l \<in> set logs \<Longrightarrow> (log_id l \<in> log_id ` set (filter P logs)) = P l"
  proof -
    fix l assume l: "l \<in> set logs"
    show "(log_id l \<in> log_id ` set (filter P logs)) = P l"
    proof
      assume "log_id l \<in> log_id ` set (filter P logs)"
      then obtain l' where l': "l' \<in> set logs" "P l'" "log_id l' = log_id l"
        by auto
      from d have "inj_on log_id (set logs)"
        by (simp add: distinct_map)
      with l l' have "l' = l"
        by (auto dest: inj_onD)
      with l' show "P l" by simp
    next
      assume "P l"
      with l show "log_id l \<in> log_id ` set (filter P logs)" by auto
    qed
  qed
  then show ?thesis
    by (auto intro: filter_cong)
qed

lemma relatedLogs_fallback_some:
  assumes "noRelatedIds alert" "distinct (map log_id logs)"
    and "filter (relevant alert) logs \<noteq> []"
  shows "relatedLogs alert logs = filter (relevant alert) logs"
  using assms filter_by_ids_of_filter [of logs "relevant alert"]
  by (simp add: relatedLogs_def handleViewRelatedLogs_fallback displayedLogs_def)

lemma relatedLogs_fallback_none:
  assumes "noRelatedIds alert" and "filter (relevant alert) logs = []"
  shows "relatedLogs alert logs = logs"
  using assms
  by (simp add: relatedLogs_def handleViewRelatedLogs_fallback displayedLogs_def)

text \<open>
  Claim C8, as amended. When the alert's \<open>relatedLogIds\<close> is non-empty, the view is
  exactly the log records whose identifier is in that list, in Log Store order. When it
  is empty or undefined, log identifiers are pairwise distinct and at least one record
  has the alert's service at level WARNING, ERROR or CRITICAL, the view is exactly
  those records, in Log Store order.
\<close>

theorem relatedLogs_exact:
  "(relatedLogIds alert = Some ids \<and> ids \<noteq> [] \<longrightarrow>
      relatedLogs alert logs = filter (\<lambda>l. log_id l \<in> set ids) logs) \<and>
   (noRelatedIds alert \<and> distinct (map log_id logs) \<and> filter (relevant alert) logs \<noteq> [] \<longrightarrow>
      relatedLogs alert logs = filter (relevant alert) logs)"
  using relatedLogs_primary [of alert ids logs] relatedLogs_fallback_some [of alert logs]
  by blast

theorem relatedLogs_exact_witness:
  "relatedLogs (mkAlert ''a1'' ''Snowflake'' (Some [''log-1'', ''log-3'']))
       [mkLog ''log-1'' ''Snowflake'' CRITICAL, mkLog ''log-2'' ''SAP'' ERROR,
        mkLog ''log-3'' ''Snowflake'' INFO]
     = [mkLog ''log-1'' ''Snowflake'' CRITICAL, mkLog ''log-3'' ''Snowflake'' INFO] \<and>
   relatedLogs (mkAlert ''a2'' ''Kafka'' (Some []))
       [mkLog ''k-1'' ''Kafka'' WARNING, mkLog ''k-2'' ''Kafka'' INFO]
     = [mkLog ''k-1'' ''Kafka'' WARNING]"
proof -
  let ?a1 = "mkAlert ''a1'' ''Snowflake'' (Some [''log-1'', ''log-3''])"
  let ?l1 = "[mkLog ''log-1'' ''Snowflake'' CRITICAL, mkLog ''log-2'' ''SAP'' ERROR,
              mkLog ''log-3'' ''Snowflake'' INFO]"
  let ?a2 = "mkAlert ''a2'' ''Kafka'' (Some [])"
  let ?l2 = "[mkLog ''k-1'' ''Kafka'' WARNING, mkLog ''k-2'' ''Kafka'' INFO]"
  have h1: "relatedLogIds ?a1 = Some [''log-1'', ''log-3''] \<and> [''log-1'', ''log-3''] \<noteq> []"
    by (simp add: mkAlert_def)
  have h2: "noRelatedIds ?a2 \<and> distinct (map log_id ?l2) \<and> filter (relevant ?a2) ?l2 \<noteq> []"
    by (simp add: mkAlert_def mkLog_def noRelatedIds_def relevant_def)
  from h1 relatedLogs_exact [of ?a1 "[''log-1'', ''log-3'']" ?l1]
  have r1: "relatedLogs ?a1 ?l1 = filter (\<lambda>l. log_id l \<in> set [''log-1'', ''log-3'']) ?l1"
    by blast
  from h2 relatedLogs_exact [of ?a2 "[]" ?l2]
  have r2: "relatedLogs ?a2 ?l2 = filter (relevant ?a2) ?l2"
    by blast
  show ?thesis
    unfolding r1 r2 by (simp add: mkAlert_def mkLog_def relevant_def)
qed

text \<open>
  The claim C8 as written fails on the fallback path when no record matches: the alert
  has no related identifiers and service Kafka, the one stored record is an INFO record
  of Kafka, and the view shows that record, although no record has the alert's service
  at level WARNING, ERROR or CRITICAL.
\<close>

theorem relatedLogs_exact_counterexample:
  "noRelatedIds (mkAlert ''a2'' ''Kafka'' (Some [])) \<and>
   filter (relevant (mkAlert ''a2'' ''Kafka'' (Some []))) [mkLog ''k-2'' ''Kafka'' INFO] = [] \<and>
   relatedLogs (mkAlert ''a2'' ''Kafka'' (Some [])) [mkLog ''k-2'' ''Kafka'' INFO]
     = [mkLog ''k-2'' ''Kafka'' INFO]"
  by (simp add: relatedLogs_def handleViewRelatedLogs_def displayedLogs_def
        noRelatedIds_def relevant_def mkAlert_def mkLog_def)

text \<open>
  Claim C9, as amended. When \<open>relatedLogIds\<close> is empty or undefined and no record has
  the alert's service at level WARNING, ERROR or CRITICAL, the view is the full Log
  Store. When \<open>relatedLogIds\<close> is non-empty and no stored record has one of these
  identifiers, the view is empty.
\<close>

theorem relatedLogs_zero_matches:
  "(noRelatedIds alert \<and> filter (relevant alert) logs = [] \<longrightarrow>
      relatedLogs alert logs = logs) \<and>
   (relatedLogIds alert = Some ids \<and> ids \<noteq> [] \<and>
    filter (\<lambda>l. log_id l \<in> set ids) logs = [] \<longrightarrow>
      relatedLogs alert logs = [])"
  using relatedLogs_fallback_none [of alert logs] relatedLogs_primary [of alert ids logs]
  by auto

theorem relatedLogs_zero_matches_witness:
  "relatedLogs (mkAlert ''a2'' ''Kafka'' None)
       [mkLog ''k-2'' ''Kafka'' INFO, mkLog ''s-1'' ''SAP'' ERROR]
     = [mkLog ''k-2'' ''Kafka'' INFO, mkLog ''s-1'' ''SAP'' ERROR] \<and>
   relatedLogs (mkAlert ''a1'' ''Snowflake'' (Some [''gone'']))
       [mkLog ''log-1'' ''Snowflake'' CRITICAL] = []"
proof -
  let ?a2 = "mkAlert ''a2'' ''Kafka'' None"
  let ?l2 = "[mkLog ''k-2'' ''Kafka'' INFO, mkLog ''s-1'' ''SAP'' ERROR]"
  let ?a1 = "mkAlert ''a1'' ''Snowflake'' (Some [''gone''])"
  let ?l1 = "[mkLog ''log-1'' ''Snowflake'' CRITICAL]"
  have h2: "noRelatedIds ?a2 \<and> filter (relevant ?a2) ?l2 = []"
    by (simp add: mkAlert_def mkLog_def noRelatedIds_def relevant_def)
  have h1: "relatedLogIds ?a1 = Some [''gone''] \<and> [''gone''] \<noteq> [] \<and>
            filter (\<lambda>l. log_id l \<in> set [''gone'']) ?l1 = []"
    by (simp add: mkAlert_def mkLog_def)
  from h2 relatedLogs_zero_matches [of ?a2 ?l2 "[]"] have r2: "relatedLogs ?a2 ?l2 = ?l2"
    by blast
  from h1 relatedLogs_zero_matches [of ?a1 ?l1 "[''gone'']"] have r1: "relatedLogs ?a1 ?l1 = []"
    by blast
  from r1 r2 show ?thesis by simp
qed

text \<open>
  The claim C9 as written fails on the primary path: the alert names the identifier
  \<open>gone\<close>, which no stored record has; the view is then empty, not the full Log Store.
\<close>

theorem relatedLogs_zero_matches_counterexample:
  "relatedLogIds (mkAlert ''a1'' ''Snowflake'' (Some [''gone''])) = Some [''gone''] \<and>
   filter (\<lambda>l. log_id l \<in> set [''gone'']) [mkLog ''log-1'' ''Snowflake'' CRITICAL] = [] \<and>
   relatedLogs (mkAlert ''a1'' ''Snowflake'' (Some [''gone'']))
       [mkLog ''log-1'' ''Snowflake'' CRITICAL] = [] \<and>
   relatedLogs (mkAlert ''a1'' ''Snowflake'' (Some [''gone'']))
       [mkLog ''log-1'' ''Snowflake'' CRITICAL] \<noteq> [mkLog ''log-1'' ''Snowflake'' CRITICAL]"
  by (simp add: relatedLogs_def handleViewRelatedLogs_def displayedLogs_def
        mkAlert_def mkLog_def)

section \<open>What the effects leave alone\<close>

lemma monitorEffect_fields:
  "logStore (monitorEffect s) = logStore s"
  "alertStore (monitorEffect s) = alertStore s"
  "healRuns (monitorEffect s) = healRuns s"
  "clock (monitorEffect s) = clock s"
  by (simp_all add: monitorEffect_def split: option.splits)

lemma healEffect_logStore: "logStore (healEffect s) = logStore s"
proof (induction s rule: healEffect.induct)
  case (1 s)
  then show ?case
    by (subst healEffect.simps) (simp split: list.splits)
qed

lemma healEffect_analyses: "analyses (healEffect s) = analyses s"
proof (induction s rule: healEffect.induct)
  case (1 s)
  then show ?case
    by (subst healEffect.simps) (simp split: list.splits)
qed

lemma healEffect_length: "length (alertStore (healEffect s)) = length (alertStore s)"
proof (induction s rule: healEffect.induct)
  case (1 s)
  then show ?case
    by (subst healEffect.simps) (simp split: list.splits add: markHealing_def)
qed

lemma healEffect_empty: "(alertStore (healEffect s) = []) = (alertStore s = [])"
  using healEffect_length [of s] by (metis length_0_conv)

lemma monitorEffect_analyses:
  "analyses (monitorEffect s) =
     (if hasErrors (logStore s) \<and> alertStore s = [] then analyses s @ [logStore s]
      else analyses s)"
  by (auto simp: monitorEffect_def monitorLogs_def hasErrors_def)

lemma hasErrors_iff:
  "hasErrors logs = (\<exists>l \<in> set logs. level l = ERROR \<or> level l = CRITICAL)"
  by (simp add: hasErrors_def list_ex_iff)

text \<open>The evaluation rules for a run of the machine on concrete events.\<close>

lemmas machine_simps =
  step_def appendLogs_def monitorEffect_def monitorLogs_def recordPlan_def finishPass_def
  healEffect.simps markHealing_def applyPlan_def markResolved_def resolveStep_def
  successLog_def analyzeForAlerts_def agentDiagnoseAndHeal_def falsy_def hasErrors_def
  problematic_def materialize_def show_nat.simps heartbeat_def mkLog_def mkDraft_def
  mounted_def backfill_def twoAlerts_def healingInFlight_def diagnosesInProgress_def
  statusOf_def Let_def

section \<open>One alert, one run\<close>

lemma healEffect_none:
  "filter (\<lambda>a. status a = active) (alertStore s) = [] \<Longrightarrow> healEffect s = s"
  by (subst healEffect.simps) simp

lemma healEffect_one:
  "alertStore s = [A] \<Longrightarrow> status A = active \<Longrightarrow>
   healEffect s = s\<lparr>alertStore := [A\<lparr>status := healing\<rparr>],
                     healRuns := healRuns s @
                       [\<lparr>current = A, remaining = [], phase = Thinking (clock s + 2000)\<rparr>]\<rparr>"
  by (subst healEffect.simps, simp add: markHealing_def, subst healEffect.simps, simp)

lemma diagnosis_ignores_alert:
  "fst (agentDiagnoseAndHeal apiKey reply alert calls)
     = fst (agentDiagnoseAndHeal apiKey reply alert' calls')"
  by (simp add: agentDiagnoseAndHeal_def split: Reply.splits)

text \<open>
  The machine on a single alert. An analysis of \<open>logs\<close> is pending; its reply holds one
  draft; the timers fire when due or later and the diagnosis takes any time. All four
  events can happen, the run ends, and the two stores end as \<open>healAlert\<close> computes
  them: with one alert and no other writer, the pass is what the machine does.
\<close>

lemma lone_alert_run:
  assumes key: "\<not> falsy apiKey" and err: "hasErrors logs"
    and t: "c \<le> t0" "t0 + 2000 \<le> t1" "t1 \<le> t2" "t2 + 4000 \<le> t3"
  shows "\<exists>s'. exec apiKey
            [(t0, AnalysisReturns 0 (Replies [dr])), (t1, ThinkingElapsed 0),
             (t2, DiagnosisReturns 0 reply), (t3, ActionElapsed 0)]
            \<lparr> logStore = logs, alertStore = [], healRuns = [], analyses = [logs], clock = c \<rparr>
          = Some s' \<and>
          map phase (healRuns s') = [Finished] \<and>
          (alertStore s', logStore s')
            = healAlert apiKey reply t3 (materialize t0 (dr, 0)) ([materialize t0 (dr, 0)], logs)"
proof -
  let ?A = "materialize t0 (dr, 0)"
  let ?d = "fst (agentDiagnoseAndHeal apiKey reply ?A 0)"
  have A: "status ?A = active"
    by (simp add: materialize_def)
  from err have p: "filter problematic logs \<noteq> []" "logs \<noteq> []"
    by (auto simp: hasErrors_def problematic_def list_ex_iff filter_empty_conv)
  with key have an: "analyzeForAlerts apiKey (Replies [dr]) t0 logs = [?A]"
    by (simp add: analyzeForAlerts_def)
  let ?s0 = "\<lparr> logStore = logs, alertStore = [], healRuns = [], analyses = [logs], clock = c \<rparr>"
  let ?s1 = "\<lparr> logStore = logs, alertStore = [?A\<lparr>status := healing\<rparr>],
               healRuns = [\<lparr>current = ?A, remaining = [], phase = Thinking (t0 + 2000)\<rparr>],
               analyses = [], clock = t0 \<rparr>"
  have 1: "step apiKey (t0, AnalysisReturns 0 (Replies [dr])) ?s0 = Some ?s1"
    using t(1) A by (simp add: step_def an healEffect_one)
  let ?s2 = "?s1\<lparr>healRuns := [\<lparr>current = ?A, remaining = [], phase = Diagnosing\<rparr>], clock := t1\<rparr>"
  have 2: "step apiKey (t1, ThinkingElapsed 0) ?s1 = Some ?s2"
    using t key by (simp add: step_def)
  let ?s3 = "?s2\<lparr>alertStore := applyPlan ?A ?d [?A\<lparr>status := healing\<rparr>],
                 healRuns := [\<lparr>current = ?A, remaining = [], phase = Acting (t2 + 4000) ?d\<rparr>],
                 clock := t2\<rparr>"
  have 3: "step apiKey (t2, DiagnosisReturns 0 reply) ?s2 = Some ?s3"
    using t by (simp add: step_def recordPlan_def healEffect_none applyPlan_def)
  obtain s' where 4: "step apiKey (t3, ActionElapsed 0) ?s3 = Some s'"
    using t by (simp add: step_def)
  then have s': "s' = finishPass 0 ?d (?s3\<lparr>clock := t3\<rparr>)"
    using t by (simp add: step_def)
  have r: "(alertStore s', logStore s') = healAlert apiKey reply t3 ?A ([?A], logs)"
    unfolding s'
    by (simp add: finishPass_def Let_def healAlert_def resolveStep_def healEffect_logStore
          monitorEffect_fields healEffect_none applyPlan_def markHealing_def markResolved_def)
  have f: "map phase (healRuns s') = [Finished]"
    unfolding s'
    by (simp add: finishPass_def Let_def resolveStep_def monitorEffect_fields healEffect_none
          applyPlan_def markResolved_def)
  from 1 2 3 4 r f show ?thesis
    by (intro exI [of _ s']) simp
qed

section \<open>Properties of one healing pass\<close>

lemma diagnosis_ignores_calls:
  "fst (agentDiagnoseAndHeal apiKey reply alert calls)
     = fst (agentDiagnoseAndHeal apiKey reply alert 0)"
  by (simp add: agentDiagnoseAndHeal_def split: Reply.splits)

text \<open>What one pass leaves in the Alert Store, entry by entry.\<close>

lemma healAlert_alerts:
  "fst (healAlert apiKey reply now alert (alerts, logs)) =
     map (\<lambda>a. if alert_id a = alert_id alert
              then a\<lparr>status := (if success (fst (agentDiagnoseAndHeal apiKey reply alert 0))
                                 then resolved else healing),
                     agentThoughts := Some [thoughts (fst (agentDiagnoseAndHeal apiKey reply alert 0))],
                     fixAction := Some (action (fst (agentDiagnoseAndHeal apiKey reply alert 0)))\<rparr>
              else a) alerts"
  by (simp add: healAlert_def resolveStep_def markHealing_def applyPlan_def markResolved_def
        Let_def)

lemma healAlert_logs:
  "snd (healAlert apiKey reply now alert (alerts, logs)) =
     (if success (fst (agentDiagnoseAndHeal apiKey reply alert 0))
      then logs @ [successLog now alert (fst (agentDiagnoseAndHeal apiKey reply alert 0))]
      else logs)"
  by (simp add: healAlert_def resolveStep_def Let_def)

lemma healAlert_ids:
  "map alert_id (fst (healAlert apiKey reply now alert (alerts, logs))) = map alert_id alerts"
  by (simp add: healAlert_alerts comp_def if_distrib cong: if_cong)

text \<open>
  With a single alert and a request that raises, the run goes through all its steps and
  ends with the alert in status \<open>healing\<close>, the fallback action recorded and the Log
  Store unchanged.
\<close>

lemma lone_alert_fallback:
  assumes "\<not> falsy apiKey" "hasErrors ls" "c \<le> t0" "t0 + 2000 \<le> t1" "t1 \<le> t2"
    "t2 + 4000 \<le> t3"
  shows "\<exists>s'. exec apiKey
                 [(t0, AnalysisReturns 0 (Replies [dr])), (t1, ThinkingElapsed 0),
                  (t2, DiagnosisReturns 0 Raises), (t3, ActionElapsed 0)]
                 \<lparr> logStore = ls, alertStore = [], healRuns = [], analyses = [ls],
                   clock = c \<rparr> = Some s' \<and>
               map phase (healRuns s') = [Finished] \<and>
               map status (alertStore s') = [healing] \<and>
               map fixAction (alertStore s') = [Some ''Manual intervention required''] \<and>
               logStore s' = ls"
proof -
  let ?B = "materialize t0 (dr, 0)"
  have d: "fst (agentDiagnoseAndHeal apiKey Raises ?B 0) =
           \<lparr> thoughts = ''Agent process failed.'',
             action = ''Manual intervention required'', success = False \<rparr>"
    using assms(1) by (simp add: agentDiagnoseAndHeal_def)
  from lone_alert_run [OF assms, of dr Raises]
  obtain s' where
    e: "exec apiKey
          [(t0, AnalysisReturns 0 (Replies [dr])), (t1, ThinkingElapsed 0),
           (t2, DiagnosisReturns 0 Raises), (t3, ActionElapsed 0)]
          \<lparr> logStore = ls, alertStore = [], healRuns = [], analyses = [ls], clock = c \<rparr>
        = Some s'"
    and f: "map phase (healRuns s') = [Finished]"
    and r: "(alertStore s', logStore s') = healAlert apiKey Raises t3 ?B ([?B], ls)"
    by (elim exE conjE)
  from r have "alertStore s' = fst (healAlert apiKey Raises t3 ?B ([?B], ls))"
    and "logStore s' = snd (healAlert apiKey Raises t3 ?B ([?B], ls))"
    by (simp_all add: prod_eq_iff)
  then have "map status (alertStore s') = [healing]"
    and "map fixAction (alertStore s') = [Some ''Manual intervention required'']"
    and "logStore s' = ls"
    by (simp_all add: healAlert_alerts healAlert_logs d)
  with e f show ?thesis
    by (intro exI [of _ s']) simp
qed

text \<open>
  Claim C5, as amended. When \<^verbatim>\<open>agentDiagnoseAndHeal\<close> returns \<open>d\<close>, every stored
  alert with the processed alert's identifier gets \<open>agentThoughts\<close> set to the
  one-element sequence holding the returned narrative (earlier thoughts are not kept;
  on an alert whose thoughts are still empty this is the same as appending) and
  \<open>fixAction\<close> set to the returned action. Nothing in the update looks at \<open>success\<close>,
  the other alerts are left as they are, and both fields still hold these values when
  the pass has ended.
\<close>

theorem plan_recorded:
  "length (applyPlan alert d prev) = length prev \<and>
   (\<forall>i < length prev.
      (alert_id (prev ! i) = alert_id alert \<longrightarrow>
         agentThoughts (applyPlan alert d prev ! i) = Some [thoughts d] \<and>
         fixAction (applyPlan alert d prev ! i) = Some (action d) \<and>
         (agentThoughts (prev ! i) = Some [] \<longrightarrow>
            agentThoughts (applyPlan alert d prev ! i) = Some ([] @ [thoughts d]))) \<and>
      (alert_id (prev ! i) \<noteq> alert_id alert \<longrightarrow> applyPlan alert d prev ! i = prev ! i)) \<and>
   (\<forall>a \<in> set (fst (healAlert apiKey reply now alert (prev, logs))).
      alert_id a = alert_id alert \<longrightarrow>
        agentThoughts a = Some [thoughts (fst (agentDiagnoseAndHeal apiKey reply alert 0))] \<and>
        fixAction a = Some (action (fst (agentDiagnoseAndHeal apiKey reply alert 0))))"
proof -
  have 1: "length (applyPlan alert d prev) = length prev"
    by (simp add: applyPlan_def)
  have 2: "\<forall>i < length prev.
      (alert_id (prev ! i) = alert_id alert \<longrightarrow>
         agentThoughts (applyPlan alert d prev ! i) = Some [thoughts d] \<and>
         fixAction (applyPlan alert d prev ! i) = Some (action d) \<and>
         (agentThoughts (prev ! i) = Some [] \<longrightarrow>
            agentThoughts (applyPlan alert d prev ! i) = Some ([] @ [thoughts d]))) \<and>
      (alert_id (prev ! i) \<noteq> alert_id alert \<longrightarrow> applyPlan alert d prev ! i = prev ! i)"
    by (simp add: applyPlan_def)
  have 3: "\<forall>a \<in> set (fst (healAlert apiKey reply now alert (prev, logs))).
      alert_id a = alert_id alert \<longrightarrow>
        agentThoughts a = Some [thoughts (fst (agentDiagnoseAndHeal apiKey reply alert 0))] \<and>
        fixAction a = Some (action (fst (agentDiagnoseAndHeal apiKey reply alert 0)))"
    by (auto simp: healAlert_alerts)
  from 1 2 3 show ?thesis by blast
qed

theorem plan_recorded_witness:
  "map agentThoughts
     (applyPlan (mkAlert ''a1'' ''Snowflake'' None)
        \<lparr> thoughts = ''Pipe stalled after Glue OOM'', action = ''Trigger Backfill'',
          success = False \<rparr>
        [mkAlert ''a1'' ''Snowflake'' None, mkAlert ''a2'' ''Kafka'' None])
     = [Some ([] @ [''Pipe stalled after Glue OOM'']), Some []] \<and>
   map fixAction
     (applyPlan (mkAlert ''a1'' ''Snowflake'' None)
        \<lparr> thoughts = ''Pipe stalled after Glue OOM'', action = ''Trigger Backfill'',
          success = False \<rparr>
        [mkAlert ''a1'' ''Snowflake'' None, mkAlert ''a2'' ''Kafka'' None])
     = [Some ''Trigger Backfill'', None] \<and>
   fixAction (hd (fst (healAlert (Some ''key'') (Replies backfill) 0
                        (mkAlert ''a1'' ''Snowflake'' None)
                        ([mkAlert ''a1'' ''Snowflake'' None, mkAlert ''a2'' ''Kafka'' None],
                         [])))) = Some ''Trigger Backfill''"
proof -
  let ?A = "mkAlert ''a1'' ''Snowflake'' None"
  let ?B = "mkAlert ''a2'' ''Kafka'' None"
  let ?d = "\<lparr> thoughts = ''Pipe stalled after Glue OOM'', action = ''Trigger Backfill'',
              success = False \<rparr>"
  let ?h = "fst (healAlert (Some ''key'') (Replies backfill) 0 ?A ([?A, ?B], []))"
  let ?p = "applyPlan ?A ?d [?A, ?B]"
  note inst = plan_recorded [of ?A ?d "[?A, ?B]" "Some ''key''" "Replies backfill" 0 "[]"]
  note len = inst [THEN conjunct1]
  note each = inst [THEN conjunct2, THEN conjunct1, rule_format]
  have i0: "(0::nat) < length [?A, ?B]" and i1: "Suc 0 < length [?A, ?B]"
    by simp_all
  have e0: "alert_id ([?A, ?B] ! 0) = alert_id ?A"
    by simp
  have e1: "alert_id ([?A, ?B] ! Suc 0) \<noteq> alert_id ?A"
    by (simp add: mkAlert_def)
  have t0: "agentThoughts ([?A, ?B] ! 0) = Some []"
    by (simp add: mkAlert_def)
  from each [OF i0, THEN conjunct1, rule_format, OF e0]
  have f0: "fixAction (?p ! 0) = Some (action ?d)"
    and a0: "agentThoughts ([?A, ?B] ! 0) = Some [] \<longrightarrow>
             agentThoughts (?p ! 0) = Some ([] @ [thoughts ?d])"
    by simp_all
  from a0 t0 have g0: "agentThoughts (?p ! 0) = Some ([] @ [thoughts ?d])"
    by (rule mp)
  from each [OF i1, THEN conjunct2, rule_format, OF e1]
  have u1: "?p ! Suc 0 = ?B"
    by simp
  from len have "length ?p = 2"
    by simp
  then have p: "?p = [?p ! 0, ?p ! Suc 0]"
    by (cases ?p; simp; cases "tl ?p"; simp)
  from arg_cong [OF p, of "map agentThoughts"]
  have "map agentThoughts ?p = [agentThoughts (?p ! 0), agentThoughts (?p ! Suc 0)]"
    by (simp only: list.map)
  also have "\<dots> = [Some ([] @ [thoughts ?d]), agentThoughts ?B]"
    by (simp only: g0 u1)
  also have "\<dots> = [Some ([] @ [''Pipe stalled after Glue OOM'']), Some []]"
    by (simp add: mkAlert_def)
  finally have 1: "map agentThoughts ?p
                     = [Some ([] @ [''Pipe stalled after Glue OOM'']), Some []]" .
  from arg_cong [OF p, of "map fixAction"]
  have "map fixAction ?p = [fixAction (?p ! 0), fixAction (?p ! Suc 0)]"
    by (simp only: list.map)
  also have "\<dots> = [Some (action ?d), fixAction ?B]"
    by (simp only: f0 u1)
  also have "\<dots> = [Some ''Trigger Backfill'', None]"
    by (simp add: mkAlert_def)
  finally have 2: "map fixAction ?p = [Some ''Trigger Backfill'', None]" .
  have m: "hd ?h \<in> set ?h \<and> alert_id (hd ?h) = alert_id ?A"
    by (simp add: healAlert_alerts)
  from inst [THEN conjunct2, THEN conjunct2, rule_format, of "hd ?h"] m
  have "fixAction (hd ?h)
          = Some (action (fst (agentDiagnoseAndHeal (Some ''key'') (Replies backfill) ?A 0)))"
    by simp
  then have 3: "fixAction (hd ?h) = Some ''Trigger Backfill''"
    by (simp add: agentDiagnoseAndHeal_def falsy_def backfill_def)
  show ?thesis
    by (intro conjI 1 2 3)
qed

text \<open>
  With a single alert and a diagnosis that reports success, the run goes through all
  its steps and ends with the alert resolved and one SUCCESS record added.
\<close>

lemma lone_alert_success:
  assumes "fst (agentDiagnoseAndHeal apiKey reply A 0) = d" "success d"
    "hasErrors ls" "c \<le> t0" "t0 + 2000 \<le> t1" "t1 \<le> t2" "t2 + 4000 \<le> t3"
  shows "\<exists>s'. exec apiKey
                 [(t0, AnalysisReturns 0 (Replies [dr])), (t1, ThinkingElapsed 0),
                  (t2, DiagnosisReturns 0 reply), (t3, ActionElapsed 0)]
                 \<lparr> logStore = ls, alertStore = [], healRuns = [], analyses = [ls],
                   clock = c \<rparr> = Some s' \<and>
               map phase (healRuns s') = [Finished] \<and>
               map status (alertStore s') = [resolved] \<and>
               logStore s' = ls @ [successLog t3 (materialize t0 (dr, 0)) d]"
proof -
  let ?B = "materialize t0 (dr, 0)"
  have key: "\<not> falsy apiKey"
    using assms(1,2) by (auto simp: agentDiagnoseAndHeal_def)
  have dB: "fst (agentDiagnoseAndHeal apiKey reply ?B 0) = d"
    using assms(1) diagnosis_ignores_alert [of apiKey reply ?B 0 A 0] by simp
  from lone_alert_run [OF key assms(3-7), of dr reply]
  obtain s' where
    e: "exec apiKey
          [(t0, AnalysisReturns 0 (Replies [dr])), (t1, ThinkingElapsed 0),
           (t2, DiagnosisReturns 0 reply), (t3, ActionElapsed 0)]
          \<lparr> logStore = ls, alertStore = [], healRuns = [], analyses = [ls], clock = c \<rparr>
        = Some s'"
    and f: "map phase (healRuns s') = [Finished]"
    and r: "(alertStore s', logStore s') = healAlert apiKey reply t3 ?B ([?B], ls)"
    by (elim exE conjE)
  from r have "alertStore s' = fst (healAlert apiKey reply t3 ?B ([?B], ls))"
    and "logStore s' = snd (healAlert apiKey reply t3 ?B ([?B], ls))"
    by (simp_all add: prod_eq_iff)
  then have "map status (alertStore s') = [resolved]"
    and "logStore s' = ls @ [successLog t3 ?B d]"
    using assms(2) by (simp_all add: healAlert_alerts healAlert_logs dB)
  with e f show ?thesis
    by (intro exI [of _ s']) simp
qed

text \<open>
  Claim C10. When the API key is absent (undefined or empty),
  \<^verbatim>\<open>agentDiagnoseAndHeal\<close> sends no request (the request count is returned
  unchanged, and the reply of the service plays no part) and returns thoughts
  "API Key missing.", action "None", \<open>success = False\<close>. The action differs from the
  fallback of a failed call, so after a pass a stalled alert carries \<open>fixAction\<close> "None"
  in the missing-key case and "Manual intervention required" when a key is present and
  the request raises.
\<close>

theorem missing_key_diagnosis:
  assumes "falsy apiKey" and "\<not> falsy k"
  shows "agentDiagnoseAndHeal apiKey reply alert calls =
           (\<lparr> thoughts = ''API Key missing.'', action = ''None'', success = False \<rparr>, calls) \<and>
         action (fst (agentDiagnoseAndHeal apiKey reply alert calls))
           \<noteq> action (fst (agentDiagnoseAndHeal k Raises alert calls)) \<and>
         (\<forall>a \<in> set (fst (healAlert apiKey reply now alert (alerts, logs))).
            alert_id a = alert_id alert \<longrightarrow> status a = healing \<and> fixAction a = Some ''None'') \<and>
         (\<forall>a \<in> set (fst (healAlert k Raises now alert (alerts, logs))).
            alert_id a = alert_id alert \<longrightarrow>
              status a = healing \<and> fixAction a = Some ''Manual intervention required'')"
proof -
  have m: "agentDiagnoseAndHeal apiKey reply alert calls =
           (\<lparr> thoughts = ''API Key missing.'', action = ''None'', success = False \<rparr>, calls)"
    for calls
    using assms(1) by (simp add: agentDiagnoseAndHeal_def)
  have f: "fst (agentDiagnoseAndHeal k Raises alert calls) =
           \<lparr> thoughts = ''Agent process failed.'',
             action = ''Manual intervention required'', success = False \<rparr>"
    for calls
    using assms(2) by (simp add: agentDiagnoseAndHeal_def)
  have 2: "action (fst (agentDiagnoseAndHeal apiKey reply alert calls))
           \<noteq> action (fst (agentDiagnoseAndHeal k Raises alert calls))"
    by (simp add: m f)
  have 3: "\<forall>a \<in> set (fst (healAlert apiKey reply now alert (alerts, logs))).
            alert_id a = alert_id alert \<longrightarrow> status a = healing \<and> fixAction a = Some ''None''"
    by (auto simp: healAlert_alerts m)
  have 4: "\<forall>a \<in> set (fst (healAlert k Raises now alert (alerts, logs))).
            alert_id a = alert_id alert \<longrightarrow>
              status a = healing \<and> fixAction a = Some ''Manual intervention required''"
    by (auto simp: healAlert_alerts f)
  from m 2 3 4 show ?thesis by blast
qed

theorem missing_key_diagnosis_witness:
  "falsy None \<and> falsy (Some []) \<and> \<not> falsy (Some ''key'') \<and>
   agentDiagnoseAndHeal (Some [])
       (Replies \<lparr> thoughts = ''t'', action = ''Scale Glue Workers'', success = True \<rparr>)
       (mkAlert ''a1'' ''Snowflake'' None) 7
     = (\<lparr> thoughts = ''API Key missing.'', action = ''None'', success = False \<rparr>, 7) \<and>
   fixAction (hd (fst (healAlert None Raises 0 (mkAlert ''a1'' ''Snowflake'' None)
                        ([mkAlert ''a1'' ''Snowflake'' None], [])))) = Some ''None'' \<and>
   fixAction (hd (fst (healAlert (Some ''key'') Raises 0 (mkAlert ''a1'' ''Snowflake'' None)
                        ([mkAlert ''a1'' ''Snowflake'' None], []))))
     = Some ''Manual intervention required''"
proof -
  let ?A = "mkAlert ''a1'' ''Snowflake'' None"
  let ?r = "Replies \<lparr> thoughts = ''t'', action = ''Scale Glue Workers'', success = True \<rparr>"
  have h: "falsy None" "falsy (Some [])" "\<not> falsy (Some ''key'')"
    by (simp_all add: falsy_def)
  from missing_key_diagnosis [OF h(2) h(3), of ?r ?A 7]
  have 1: "agentDiagnoseAndHeal (Some []) ?r ?A 7
             = (\<lparr> thoughts = ''API Key missing.'', action = ''None'', success = False \<rparr>, 7)"
    by blast
  have in1: "hd (fst (healAlert None Raises 0 ?A ([?A], [])))
               \<in> set (fst (healAlert None Raises 0 ?A ([?A], []))) \<and>
             alert_id (hd (fst (healAlert None Raises 0 ?A ([?A], [])))) = alert_id ?A"
    by (simp add: healAlert_alerts)
  have in2: "hd (fst (healAlert (Some ''key'') Raises 0 ?A ([?A], [])))
               \<in> set (fst (healAlert (Some ''key'') Raises 0 ?A ([?A], []))) \<and>
             alert_id (hd (fst (healAlert (Some ''key'') Raises 0 ?A ([?A], [])))) = alert_id ?A"
    by (simp add: healAlert_alerts)
  from missing_key_diagnosis [OF h(1) h(3), of Raises ?A 0 0 "[?A]" "[]"] in1 in2
  have 2: "fixAction (hd (fst (healAlert None Raises 0 ?A ([?A], [])))) = Some ''None''"
    and 3: "fixAction (hd (fst (healAlert (Some ''key'') Raises 0 ?A ([?A], []))))
              = Some ''Manual intervention required''"
    by blast+
  from h 1 2 3 show ?thesis by blast
qed

section \<open>The steps of a run in any state\<close>

lemma markHealing_nth:
  "j < length xs \<Longrightarrow>
   markHealing alert xs ! j =
     (if alert_id (xs ! j) = alert_id alert then (xs ! j)\<lparr>status := healing\<rparr> else xs ! j)"
  by (simp add: markHealing_def)

lemma healEffect_ids: "map alert_id (alertStore (healEffect s)) = map alert_id (alertStore s)"
proof (induction s rule: healEffect.induct)
  case (1 s)
  then show ?case
    by (subst healEffect.simps)
       (simp split: list.splits add: markHealing_def comp_def if_distrib cong: if_cong)
qed

lemma healEffect_fixAction:
  "map fixAction (alertStore (healEffect s)) = map fixAction (alertStore s)"
proof (induction s rule: healEffect.induct)
  case (1 s)
  then show ?case
    by (subst healEffect.simps)
       (simp split: list.splits add: markHealing_def comp_def if_distrib cong: if_cong)
qed

lemma healEffect_status:
  "j < length (alertStore s) \<Longrightarrow>
   status (alertStore (healEffect s) ! j) = status (alertStore s ! j) \<or>
   status (alertStore (healEffect s) ! j) = healing"
proof (induction s rule: healEffect.induct)
  case (1 s)
  show ?case
  proof (cases "filter (\<lambda>a. status a = active) (alertStore s)")
    case Nil
    then show ?thesis
      by (simp add: healEffect_none)
  next
    case (Cons alert rest)
    let ?s1 = "s\<lparr>alertStore := markHealing alert (alertStore s),
                  healRuns := healRuns s @
                    [\<lparr>current = alert, remaining = rest, phase = Thinking (clock s + 2000)\<rparr>]\<rparr>"
    have e: "healEffect s = healEffect ?s1"
      by (subst healEffect.simps) (simp add: Cons)
    from "1.prems" have j: "j < length (alertStore ?s1)"
      by (simp add: markHealing_def)
    from "1.IH" [OF Cons j] "1.prems" show ?thesis
      unfolding e by (auto simp: markHealing_nth split: if_splits)
  qed
qed

lemma healEffect_runs: "take (length (healRuns s)) (healRuns (healEffect s)) = healRuns s"
proof (induction s rule: healEffect.induct)
  case (1 s)
  show ?case
  proof (cases "filter (\<lambda>a. status a = active) (alertStore s)")
    case Nil
    then show ?thesis
      by (simp add: healEffect_none)
  next
    case (Cons alert rest)
    let ?s1 = "s\<lparr>alertStore := markHealing alert (alertStore s),
                  healRuns := healRuns s @
                    [\<lparr>current = alert, remaining = rest, phase = Thinking (clock s + 2000)\<rparr>]\<rparr>"
    have e: "healEffect s = healEffect ?s1"
      by (subst healEffect.simps) (simp add: Cons)
    from "1.IH" [OF Cons]
    have "take (Suc (length (healRuns s))) (healRuns (healEffect ?s1))
            = healRuns s @
                [\<lparr>current = alert, remaining = rest, phase = Thinking (clock s + 2000)\<rparr>]"
      by simp
    then have "take (length (healRuns s)) (take (Suc (length (healRuns s))) (healRuns (healEffect ?s1)))
            = healRuns s"
      by simp
    then show ?thesis
      unfolding e by (simp add: min_def)
  qed
qed

lemma healEffect_run_nth:
  "i < length (healRuns s) \<Longrightarrow> healRuns (healEffect s) ! i = healRuns s ! i"
  using healEffect_runs [of s] by (metis nth_take)

text \<open>An alert identifier none of whose alerts is active is left alone by the effect.\<close>

lemma healEffect_settled:
  "\<forall>a \<in> set (alertStore s). alert_id a = k \<longrightarrow> status a = resolved \<Longrightarrow>
   \<forall>a \<in> set (alertStore (healEffect s)). alert_id a = k \<longrightarrow> status a = resolved"
proof (induction s rule: healEffect.induct)
  case (1 s)
  show ?case
  proof (cases "filter (\<lambda>a. status a = active) (alertStore s)")
    case Nil
    with "1.prems" show ?thesis
      by (simp add: healEffect_none)
  next
    case (Cons alert rest)
    let ?s1 = "s\<lparr>alertStore := markHealing alert (alertStore s),
                  healRuns := healRuns s @
                    [\<lparr>current = alert, remaining = rest, phase = Thinking (clock s + 2000)\<rparr>]\<rparr>"
    have e: "healEffect s = healEffect ?s1"
      by (subst healEffect.simps) (simp add: Cons)
    from Cons have "alert \<in> set (filter (\<lambda>a. status a = active) (alertStore s))"
      by simp
    then have "alert \<in> set (alertStore s)" "status alert = active"
      by simp_all
    with "1.prems" have k: "alert_id alert \<noteq> k"
      by auto
    have "\<forall>a \<in> set (alertStore ?s1). alert_id a = k \<longrightarrow> status a = resolved"
      using "1.prems" k by (auto simp: markHealing_def)
    from "1.IH" [OF Cons this] show ?thesis
      unfolding e .
  qed
qed

text \<open>
  The diagnosis of run \<open>i\<close> raises: in any state, the run takes the fallback diagnosis
  into its action delay, every stored alert with its alert's identifier carries the
  fallback action, and the Log Store is as before.
\<close>

lemma fire_diagnosis_raises:
  assumes "fire apiKey (DiagnosisReturns i Raises) s = Some s'" and "\<not> falsy apiKey"
  shows "phase (healRuns s' ! i) =
           Acting (clock s + 4000)
             \<lparr> thoughts = ''Agent process failed.'',
               action = ''Manual intervention required'', success = False \<rparr>"
    and "\<forall>a \<in> set (alertStore s').
           alert_id a = alert_id (current (healRuns s ! i)) \<longrightarrow>
             fixAction a = Some ''Manual intervention required''"
    and "logStore s' = logStore s"
proof -
  let ?d = "\<lparr> thoughts = ''Agent process failed.'',
              action = ''Manual intervention required'', success = False \<rparr>"
  let ?r = "healRuns s ! i"
  let ?s1 = "s\<lparr>alertStore := applyPlan (current ?r) ?d (alertStore s),
                healRuns := (healRuns s)[i := ?r\<lparr>phase := Acting (clock s + 4000) ?d\<rparr>]\<rparr>"
  from assms have i: "i < length (healRuns s)" and s': "s' = healEffect ?s1"
    by (auto simp: recordPlan_def agentDiagnoseAndHeal_def Let_def
          split: if_splits Phase.splits)
  from i have "healRuns s' ! i = healRuns ?s1 ! i"
    unfolding s' by (intro healEffect_run_nth) simp
  with i show "phase (healRuns s' ! i) = Acting (clock s + 4000) ?d"
    by simp
  show "logStore s' = logStore s"
    by (simp add: s' healEffect_logStore)
  show "\<forall>a \<in> set (alertStore s').
           alert_id a = alert_id (current ?r) \<longrightarrow>
             fixAction a = Some ''Manual intervention required''"
  proof (intro ballI impI)
    fix a assume "a \<in> set (alertStore s')" and id: "alert_id a = alert_id (current ?r)"
    then obtain j where j: "j < length (alertStore s')" "a = alertStore s' ! j"
      by (auto simp: in_set_conv_nth)
    have len: "length (alertStore s') = length (alertStore s)"
      by (simp add: s' healEffect_length applyPlan_def)
    from j len have j1: "j < length (alertStore ?s1)"
      by (simp add: applyPlan_def)
    have "alert_id (alertStore s' ! j) = alert_id (alertStore ?s1 ! j)"
      using arg_cong [OF healEffect_ids [of ?s1], of "\<lambda>xs. xs ! j"] j j1
      by (simp add: s')
    moreover have "fixAction (alertStore s' ! j) = fixAction (alertStore ?s1 ! j)"
      using arg_cong [OF healEffect_fixAction [of ?s1], of "\<lambda>xs. xs ! j"] j j1
      by (simp add: s')
    ultimately show "fixAction a = Some ''Manual intervention required''"
      using id j j1 len by (auto simp: applyPlan_def split: if_splits)
  qed
qed

text \<open>
  The action delay of a run whose diagnosis did not succeed elapses: in any state, this
  step appends no log record, resolves no alert and changes no \<open>fixAction\<close>.
\<close>

lemma fire_failed_action:
  assumes "fire apiKey (ActionElapsed i) s = Some s'"
    and "phase (healRuns s ! i) = Acting due d" and "\<not> success d"
  shows "logStore s' = logStore s"
    and "length (alertStore s') = length (alertStore s)"
    and "map fixAction (alertStore s') = map fixAction (alertStore s)"
    and "\<forall>j < length (alertStore s).
           status (alertStore s' ! j) = resolved \<longrightarrow> status (alertStore s ! j) = resolved"
proof -
  let ?r = "healRuns s ! i"
  from assms have s': "s' = finishPass i d s"
    by (auto split: if_splits)
  show "logStore s' = logStore s"
    using assms(3)
    by (simp add: s' finishPass_def Let_def resolveStep_def healEffect_logStore
          split: list.splits)
  show "length (alertStore s') = length (alertStore s)"
    using assms(3)
    by (simp add: s' finishPass_def Let_def resolveStep_def healEffect_length markHealing_def
          split: list.splits)
  show "map fixAction (alertStore s') = map fixAction (alertStore s)"
    using assms(3)
    by (simp add: s' finishPass_def Let_def resolveStep_def healEffect_fixAction
          markHealing_def comp_def if_distrib split: list.splits cong: if_cong)
  show "\<forall>j < length (alertStore s).
           status (alertStore s' ! j) = resolved \<longrightarrow> status (alertStore s ! j) = resolved"
  proof (intro allI impI)
    fix j assume j: "j < length (alertStore s)" and r: "status (alertStore s' ! j) = resolved"
    show "status (alertStore s ! j) = resolved"
    proof (cases "remaining ?r")
      case Nil
      with assms(3) r show ?thesis
        by (simp add: s' finishPass_def Let_def resolveStep_def)
    next
      case (Cons nxt rest)
      let ?s2 = "s\<lparr>alertStore := markHealing nxt (alertStore s),
                    healRuns := (healRuns s)
                      [i := \<lparr>current = nxt, remaining = rest,
                             phase = Thinking (clock s + 2000)\<rparr>]\<rparr>"
      from Cons assms(3) have e: "s' = healEffect ?s2"
        by (simp add: s' finishPass_def Let_def resolveStep_def)
      from j have j2: "j < length (alertStore ?s2)"
        by (simp add: markHealing_def)
      from healEffect_status [OF j2] r j show ?thesis
        unfolding e by (auto simp: markHealing_nth split: if_splits)
    qed
  qed
qed

text \<open>
  The action delay of a run whose diagnosis succeeded elapses: in any state, whatever
  the run has still queued, this step appends exactly one record, the SUCCESS record of
  the run's alert, and, when the alert the run turns to next has another identifier,
  leaves every stored alert with the identifier of the run's alert resolved.
\<close>

lemma fire_successful_action:
  assumes "fire apiKey (ActionElapsed i) s = Some s'"
    and "phase (healRuns s ! i) = Acting due d" and "success d"
  shows "logStore s' = logStore s @ [successLog (clock s) (current (healRuns s ! i)) d]"
    and "(\<forall>n \<in> set (take 1 (remaining (healRuns s ! i))).
            alert_id n \<noteq> alert_id (current (healRuns s ! i))) \<longrightarrow>
         (\<forall>a \<in> set (alertStore s').
            alert_id a = alert_id (current (healRuns s ! i)) \<longrightarrow> status a = resolved)"
proof -
  let ?r = "healRuns s ! i"
  from assms have s': "s' = finishPass i d s"
    by (auto split: if_splits)
  show "logStore s' = logStore s @ [successLog (clock s) (current ?r) d]"
    using assms(3)
    by (simp add: s' finishPass_def Let_def resolveStep_def healEffect_logStore
          monitorEffect_fields split: list.splits)
  show "(\<forall>n \<in> set (take 1 (remaining ?r)). alert_id n \<noteq> alert_id (current ?r)) \<longrightarrow>
         (\<forall>a \<in> set (alertStore s').
            alert_id a = alert_id (current ?r) \<longrightarrow> status a = resolved)"
  proof
    assume n: "\<forall>n \<in> set (take 1 (remaining ?r)). alert_id n \<noteq> alert_id (current ?r)"
    have "\<exists>s2. s' = healEffect (monitorEffect s2) \<and>
            (\<forall>a \<in> set (alertStore s2).
               alert_id a = alert_id (current ?r) \<longrightarrow> status a = resolved)"
    proof (cases "remaining ?r")
      case Nil
      let ?s2 = "s\<lparr>alertStore := markResolved (current ?r) (alertStore s),
                    logStore := logStore s @ [successLog (clock s) (current ?r) d],
                    healRuns := (healRuns s)[i := ?r\<lparr>phase := Finished\<rparr>]\<rparr>"
      from assms(3) Nil have "s' = healEffect (monitorEffect ?s2)"
        by (simp add: s' finishPass_def Let_def resolveStep_def)
      moreover have "\<forall>a \<in> set (alertStore ?s2).
                       alert_id a = alert_id (current ?r) \<longrightarrow> status a = resolved"
        by (auto simp: markResolved_def)
      ultimately show ?thesis by blast
    next
      case (Cons nxt rest)
      let ?s2 = "s\<lparr>logStore := logStore s @ [successLog (clock s) (current ?r) d],
                    alertStore := markHealing nxt (markResolved (current ?r) (alertStore s)),
                    healRuns := (healRuns s)
                      [i := \<lparr>current = nxt, remaining = rest,
                             phase = Thinking (clock s + 2000)\<rparr>]\<rparr>"
      from assms(3) Cons have "s' = healEffect (monitorEffect ?s2)"
        by (simp add: s' finishPass_def Let_def resolveStep_def)
      moreover have "\<forall>a \<in> set (alertStore ?s2).
                       alert_id a = alert_id (current ?r) \<longrightarrow> status a = resolved"
        using n Cons by (auto simp: markResolved_def markHealing_def)
      ultimately show ?thesis by blast
    qed
    then obtain s2 where e: "s' = healEffect (monitorEffect s2)"
      and r2: "\<forall>a \<in> set (alertStore s2).
                 alert_id a = alert_id (current ?r) \<longrightarrow> status a = resolved"
      by blast
    from r2 have "\<forall>a \<in> set (alertStore (monitorEffect s2)).
                 alert_id a = alert_id (current ?r) \<longrightarrow> status a = resolved"
      by (simp only: monitorEffect_fields)
    from healEffect_settled [OF this]
    show "\<forall>a \<in> set (alertStore s').
            alert_id a = alert_id (current ?r) \<longrightarrow> status a = resolved"
      unfolding e .
  qed
qed

section \<open>The detection gate\<close>

text \<open>An event extends the pending analyses only when the gate holds in its result.\<close>

lemma fire_starts_analysis:
  assumes "fire apiKey ev s = Some s'" and "length (analyses s) < length (analyses s')"
  shows "hasErrors (logStore s') \<and> alertStore s' = []"
proof (cases ev)
  case (FileUpload parsed)
  with assms show ?thesis
    by (auto simp: appendLogs_def monitorEffect_fields monitorEffect_analyses split: if_splits)
next
  case (EnterpriseScenario ls)
  with assms show ?thesis
    by (auto simp: appendLogs_def monitorEffect_fields monitorEffect_analyses split: if_splits)
next
  case Refresh
  with assms show ?thesis
    by (auto simp: appendLogs_def monitorEffect_fields monitorEffect_analyses split: if_splits)
next
  case ResetData
  with assms show ?thesis
    by (auto simp: healEffect_analyses monitorEffect_analyses hasErrors_def split: if_splits)
next
  case (AnalysisReturns i reply)
  with assms show ?thesis
    by (auto simp: healEffect_analyses split: if_splits)
next
  case (ThinkingElapsed i)
  with assms show ?thesis
    by (auto simp: recordPlan_def Let_def healEffect_analyses split: if_splits Phase.splits)
next
  case (DiagnosisReturns i reply)
  with assms show ?thesis
    by (auto simp: recordPlan_def Let_def healEffect_analyses split: if_splits Phase.splits)
next
  case (ActionElapsed i)
  with assms obtain due d where s': "s' = finishPass i d s"
    by (auto split: if_splits Phase.splits)
  show ?thesis
  proof (cases "success d")
    case True
    define s2 where "s2 = (let r = healRuns s ! i;
          st = resolveStep (clock s) (current r) d (alertStore s, logStore s);
          s1 = s\<lparr>alertStore := fst st, logStore := snd st\<rparr>
       in (case remaining r of
                  [] \<Rightarrow> s1\<lparr>healRuns := (healRuns s1)[i := r\<lparr>phase := Finished\<rparr>]\<rparr>
                | next # rest \<Rightarrow>
                    s1\<lparr>alertStore := markHealing next (alertStore s1),
                       healRuns := (healRuns s1)
                         [i := \<lparr>current = next, remaining = rest,
                                phase = Thinking (clock s + 2000)\<rparr>]\<rparr>))"
    have a2: "analyses s2 = analyses s"
      by (simp add: s2_def Let_def split: list.splits)
    from True have e: "s' = healEffect (monitorEffect s2)"
      by (simp add: s' finishPass_def s2_def Let_def)
    with assms(2) a2 have "hasErrors (logStore s2) \<and> alertStore s2 = []"
      by (auto simp: healEffect_analyses monitorEffect_analyses split: if_splits)
    with e show ?thesis
      by (simp add: healEffect_logStore healEffect_empty monitorEffect_fields)
  next
    case False
    with assms(2) show ?thesis
      by (auto simp: s' finishPass_def Let_def healEffect_analyses resolveStep_def
            split: list.splits if_splits)
  qed
qed

text \<open>
  Claim C7. \<^verbatim>\<open>monitorLogs\<close> calls the detector exactly when the Log Store holds a
  record of level ERROR or CRITICAL and the Alert Store is empty, and then on the
  whole log list. With no ERROR or CRITICAL record it makes no call; with an alert in
  the Alert Store it makes no call, whatever the logs. In the running application, an
  event starts a detector call only if, in the state it leaves, the Log Store holds
  an ERROR or CRITICAL record and the Alert Store is empty.
\<close>

theorem detection_gate:
  "(monitorLogs logs alerts \<noteq> None)
     = ((\<exists>l \<in> set logs. level l = ERROR \<or> level l = CRITICAL) \<and> alerts = []) \<and>
   ((\<exists>l \<in> set logs. level l = ERROR \<or> level l = CRITICAL) \<and> alerts = [] \<longrightarrow>
      monitorLogs logs alerts = Some logs) \<and>
   ((\<forall>l \<in> set logs. level l \<noteq> ERROR \<and> level l \<noteq> CRITICAL) \<longrightarrow>
      monitorLogs logs alerts = None) \<and>
   (alerts \<noteq> [] \<longrightarrow> monitorLogs logs alerts = None) \<and>
   (step apiKey e s = Some s' \<and> length (analyses s) < length (analyses s') \<longrightarrow>
      (\<exists>l \<in> set (logStore s'). level l = ERROR \<or> level l = CRITICAL) \<and> alertStore s' = [])"
proof -
  have gate: "(monitorLogs logs alerts \<noteq> None)
     = ((\<exists>l \<in> set logs. level l = ERROR \<or> level l = CRITICAL) \<and> alerts = []) \<and>
   ((\<exists>l \<in> set logs. level l = ERROR \<or> level l = CRITICAL) \<and> alerts = [] \<longrightarrow>
      monitorLogs logs alerts = Some logs) \<and>
   ((\<forall>l \<in> set logs. level l \<noteq> ERROR \<and> level l \<noteq> CRITICAL) \<longrightarrow>
      monitorLogs logs alerts = None) \<and>
   (alerts \<noteq> [] \<longrightarrow> monitorLogs logs alerts = None)"
    by (auto simp: monitorLogs_def hasErrors_iff)
  have run: "step apiKey e s = Some s' \<and> length (analyses s) < length (analyses s') \<longrightarrow>
      (\<exists>l \<in> set (logStore s'). level l = ERROR \<or> level l = CRITICAL) \<and> alertStore s' = []"
  proof
    assume a: "step apiKey e s = Some s' \<and> length (analyses s) < length (analyses s')"
    then have "fire apiKey (snd e) (s\<lparr>clock := fst e\<rparr>) = Some s'"
      by (simp add: step_def split: if_splits)
    from fire_starts_analysis [OF this] a
    show "(\<exists>l \<in> set (logStore s'). level l = ERROR \<or> level l = CRITICAL) \<and> alertStore s' = []"
      by (simp add: hasErrors_iff)
  qed
  from gate run show ?thesis by blast
qed

theorem detection_gate_witness:
  "monitorLogs (replicate 50 (mkLog ''i'' ''SAP'' INFO)) [] = None \<and>
   monitorLogs [mkLog ''log-1'' ''Snowflake'' CRITICAL] [mkAlert ''a1'' ''Snowflake'' None] = None \<and>
   monitorLogs [mkLog ''log-1'' ''Snowflake'' CRITICAL] []
     = Some [mkLog ''log-1'' ''Snowflake'' CRITICAL] \<and>
   step None (800, EnterpriseScenario [mkLog ''log-1'' ''Snowflake'' CRITICAL]) mounted
     = Some \<lparr> logStore = [mkLog ''log-1'' ''Snowflake'' CRITICAL], alertStore = [],
              healRuns = [], analyses = [[mkLog ''log-1'' ''Snowflake'' CRITICAL]],
              clock = 800 \<rparr> \<and>
   level (mkLog ''log-1'' ''Snowflake'' CRITICAL) = CRITICAL"
proof -
  let ?q = "replicate 50 (mkLog ''i'' ''SAP'' INFO)"
  let ?c = "[mkLog ''log-1'' ''Snowflake'' CRITICAL]"
  let ?A = "mkAlert ''a1'' ''Snowflake'' None"
  let ?e = "(800::nat, EnterpriseScenario ?c)"
  let ?s' = "\<lparr> logStore = ?c, alertStore = [], healRuns = [], analyses = [?c], clock = 800 \<rparr>"
  have h1: "\<forall>l \<in> set ?q. level l \<noteq> ERROR \<and> level l \<noteq> CRITICAL"
    by (simp add: mkLog_def)
  have h2: "[?A] \<noteq> []" by simp
  have h3: "(\<exists>l \<in> set ?c. level l = ERROR \<or> level l = CRITICAL) \<and> ([]::SystemAlert list) = []"
    by (simp add: mkLog_def)
  have h4: "step None ?e mounted = Some ?s' \<and> length (analyses mounted) < length (analyses ?s')"
    by (simp add: step_def appendLogs_def monitorEffect_def monitorLogs_def hasErrors_def
          mounted_def mkLog_def)
  from h1 detection_gate [of ?q "[]"]
  have 1: "monitorLogs ?q [] = None" by blast
  from h2 detection_gate [of ?c "[?A]"]
  have 2: "monitorLogs ?c [?A] = None" by blast
  from h3 detection_gate [of ?c "[]"]
  have 3: "monitorLogs ?c [] = Some ?c" by blast
  from h4 detection_gate [of ?c "[]" None ?e mounted ?s']
  have "\<exists>l \<in> set (logStore ?s'). level l = ERROR \<or> level l = CRITICAL" by blast
  then have 5: "level (mkLog ''log-1'' ''Snowflake'' CRITICAL) = CRITICAL"
    by (simp add: mkLog_def)
  from 1 2 3 h4 5 show ?thesis by blast
qed

section \<open>The Log Store over time\<close>

lemma fire_appends:
  assumes "fire apiKey ev s = Some s'" and "ev \<noteq> ResetData"
  shows "\<exists>new. logStore s' = logStore s @ new"
proof (cases ev)
  case (ActionElapsed i)
  with assms obtain due d where s': "s' = finishPass i d s"
    by (auto split: if_splits Phase.splits)
  show ?thesis
    by (auto simp: s' finishPass_def Let_def healEffect_logStore monitorEffect_fields
          resolveStep_def split: list.splits)
qed (use assms in \<open>auto simp: appendLogs_def monitorEffect_fields healEffect_logStore
       recordPlan_def Let_def split: if_splits Phase.splits\<close>)

lemma step_appends:
  assumes "step apiKey e s = Some s'" and "snd e \<noteq> ResetData"
  shows "\<exists>new. logStore s' = logStore s @ new"
proof -
  from assms(1) have "fire apiKey (snd e) (s\<lparr>clock := fst e\<rparr>) = Some s'"
    by (simp add: step_def split: if_splits)
  from fire_appends [OF this assms(2)] show ?thesis by simp
qed

lemma exec_appends:
  "exec apiKey es s = Some s' \<Longrightarrow> \<forall>e \<in> set es. snd e \<noteq> ResetData \<Longrightarrow>
   \<exists>new. logStore s' = logStore s @ new"
proof (induction es arbitrary: s)
  case Nil
  then show ?case by simp
next
  case (Cons e es)
  from Cons.prems(1) obtain s1 where
    1: "step apiKey e s = Some s1" and 2: "exec apiKey es s1 = Some s'"
    by (auto split: option.splits)
  from step_appends [OF 1] Cons.prems(2) obtain n1 where "logStore s1 = logStore s @ n1"
    by auto
  moreover from Cons.IH [OF 2] Cons.prems(2) obtain n2 where "logStore s' = logStore s1 @ n2"
    by auto
  ultimately show ?case by simp
qed

text \<open>
  Claim C3, as amended. Along every sequence of events without a data reset (file
  upload, enterprise scenario load, refresh, detection, healing), the Log Store only
  grows at its end: the record count does not decrease and the records present before
  stay, in place. A data reset empties the Log Store and the Alert Store.
\<close>

theorem log_store_append_only:
  "((\<forall>e \<in> set es. snd e \<noteq> ResetData) \<and> exec apiKey es s = Some s' \<longrightarrow>
      length (logStore s) \<le> length (logStore s') \<and>
      take (length (logStore s)) (logStore s') = logStore s) \<and>
   (step apiKey (t, ResetData) s = Some s'' \<longrightarrow> logStore s'' = [] \<and> alertStore s'' = [])"
proof -
  have 1: "(\<forall>e \<in> set es. snd e \<noteq> ResetData) \<and> exec apiKey es s = Some s' \<longrightarrow>
      length (logStore s) \<le> length (logStore s') \<and>
      take (length (logStore s)) (logStore s') = logStore s"
    using exec_appends [of apiKey es s s'] by auto
  have 2: "step apiKey (t, ResetData) s = Some s'' \<longrightarrow> logStore s'' = [] \<and> alertStore s'' = []"
    by (auto simp: step_def healEffect_logStore healEffect_empty monitorEffect_fields
          split: if_splits)
  from 1 2 show ?thesis by blast
qed

theorem log_store_append_only_witness:
  "(\<exists>s'. exec (Some ''key'')
            (twoAlerts @ [(3500, DiagnosisReturns 1 (Replies backfill)), (7500, ActionElapsed 1)])
            mounted = Some s' \<and>
         length (logStore s') = 3 \<and> length (logStore mounted) \<le> length (logStore s')) \<and>
   (\<exists>s''. step None (5000, ResetData)
             \<lparr> logStore = [mkLog ''ent-1'' ''AWS Glue'' ERROR], alertStore = [],
               healRuns = [], analyses = [], clock = 800 \<rparr> = Some s'' \<and>
          logStore s'' = [])"
proof -
  let ?es = "twoAlerts @ [(3500, DiagnosisReturns 1 (Replies backfill)), (7500, ActionElapsed 1)]"
  let ?s0 = "\<lparr> logStore = [mkLog ''ent-1'' ''AWS Glue'' ERROR], alertStore = [],
               healRuns = [], analyses = [], clock = 800 \<rparr>"
  have n: "\<forall>e \<in> set ?es. snd e \<noteq> ResetData"
    by (simp add: twoAlerts_def)
  have "map_option (\<lambda>s. length (logStore s)) (exec (Some ''key'') ?es mounted) = Some 3"
    by (simp add: machine_simps)
  then obtain s' where s': "exec (Some ''key'') ?es mounted = Some s'" "length (logStore s') = 3"
    by auto
  from n s'(1) log_store_append_only [of ?es "Some ''key''" mounted s']
  have le: "length (logStore mounted) \<le> length (logStore s')" by blast
  have "step None (5000, ResetData) ?s0 \<noteq> None"
    by (simp add: step_def)
  then obtain s'' where s'': "step None (5000, ResetData) ?s0 = Some s''"
    by auto
  from s'' log_store_append_only [of "[]" None ?s0 ?s0 5000 s'']
  have "logStore s'' = []" by blast
  with s'' s' le show ?thesis by blast
qed

text \<open>
  The claim C3 as written fails at the data reset: two records are loaded, the reset
  button is pressed, and the record count goes 0, 2, 0.
\<close>

theorem log_store_append_only_counterexample:
  "map_option (map (\<lambda>s. length (logStore s)))
     (observe None
        [(800, EnterpriseScenario
                 [mkLog ''ent-1'' ''AWS Glue'' ERROR, mkLog ''ent-2'' ''Snowflake'' CRITICAL]),
         (5000, ResetData)]
        mounted)
   = Some [0, 2, 0]"
  by (simp add: machine_simps)

section \<open>Healing runs that overlap\<close>

text \<open>
  Claim C1 fails on the code. Two alerts are detected together. The effect starts a
  run for each list it sees: the first run holds both alerts in its
  \<^verbatim>\<open>activeAlerts\<close>, the second run, started when the first has marked its first
  alert, holds the second alert. The diagnosis of the first alert returns after 100 ms;
  the first run ends that pass at 7100 ms and goes on to the second alert, from its own
  list, while the second run is still awaiting that alert's diagnosis. At 9100 ms two
  runs are inside the healing sequence of \<open>alert-1000-1\<close>, and two calls of
  \<^verbatim>\<open>agentDiagnoseAndHeal\<close> for it are in progress.
\<close>

theorem concurrent_diagnoses_of_one_alert:
  "map_option (\<lambda>s. (healingInFlight s, diagnosesInProgress s))
     (exec (Some ''key'')
        (twoAlerts @
         [(3100, DiagnosisReturns 0 (Replies backfill)),
          (7100, ActionElapsed 0),
          (9100, ThinkingElapsed 0)])
        mounted)
   = Some ([''alert-1000-1'', ''alert-1000-1''], [''alert-1000-1'', ''alert-1000-1''])"
  by (simp add: machine_simps)

text \<open>
  Claim C2 fails on the code. Same two alerts; now the diagnosis of the second alert
  returns first (500 ms against 900 ms). The second run resolves \<open>alert-1000-1\<close> at
  7500 ms. At 7900 ms the first run ends its pass on the first alert and enters its
  next iteration, which marks \<open>alert-1000-1\<close> as healing again. The list gives the
  status of \<open>alert-1000-1\<close> at the start and after each event (no entry while the
  alert does not exist).
\<close>

theorem resolved_alert_healed_again:
  "map_option (map (statusOf ''alert-1000-1''))
     (observe (Some ''key'')
        (twoAlerts @
         [(3500, DiagnosisReturns 1 (Replies backfill)),
          (3900, DiagnosisReturns 0 (Replies backfill)),
          (7500, ActionElapsed 1),
          (7900, ActionElapsed 0)])
        mounted)
   = Some [[], [], [healing], [healing], [healing], [healing], [healing],
           [resolved], [healing]]"
  by (simp add: machine_simps)

text \<open>
  The claim C5 as written fails where it says "appended": an alert that already holds
  a thought loses it when the plan of a later diagnosis is recorded. The running
  application reaches such an alert: with the two alerts above, \<open>alert-1000-1\<close> is
  diagnosed by the second run (the thought \<open>first\<close>, recorded at 3500 ms) and again by
  the first run (the thought \<open>second\<close>, recorded at 10400 ms), after which only
  \<open>second\<close> is stored. The second list gives the thoughts of \<open>alert-1000-1\<close> at the
  start and after each event.
\<close>

theorem plan_recorded_counterexample:
  "agentThoughts
     (applyPlan (mkAlert ''a1'' ''Snowflake'' None)
        \<lparr> thoughts = ''second'', action = ''Trigger Backfill'', success = True \<rparr>
        [(mkAlert ''a1'' ''Snowflake'' None)\<lparr>agentThoughts := Some [''first'']\<rparr>] ! 0)
     \<noteq> Some ([''first''] @ [''second'']) \<and>
   map_option (map (thoughtsOf ''alert-1000-1''))
     (observe (Some ''key'')
        (twoAlerts @
         [(3500, DiagnosisReturns 1
                   (Replies \<lparr> thoughts = ''first'', action = ''Restart Kafka Consumer'',
                              success = False \<rparr>)),
          (3900, DiagnosisReturns 0 (Replies backfill)),
          (7900, ActionElapsed 0),
          (9900, ThinkingElapsed 0),
          (10400, DiagnosisReturns 0
                    (Replies \<lparr> thoughts = ''second'', action = ''Trigger Backfill'',
                               success = True \<rparr>))])
        mounted)
   = Some [[], [], [Some []], [Some []], [Some []], [Some [''first'']], [Some [''first'']],
           [Some [''first'']], [Some [''first'']], [Some [''second'']]]"
  by (simp add: machine_simps thoughtsOf_def applyPlan_def mkAlert_def)

text \<open>
  Claim C4 fails on the code, through the defect seen for C1 and C2. Same two alerts.
  The first run ends its pass on the first alert at 7100 ms and goes on to
  \<open>alert-1000-1\<close>, from its own list; its diagnosis of that alert returns at 9200 ms
  and reports success. The second run's call for \<open>alert-1000-1\<close>, in progress since
  3000 ms, raises at 9300 ms: the fallback action is recorded and the alert is in status
  \<open>healing\<close> (first line). At 13200 ms the first run resolves the alert and appends its
  SUCCESS record; at 13300 ms the second run, whose call failed, ends its sequence:
  both runs are finished, the alert is resolved and the Log Store holds a SUCCESS
  record for it (second line).
\<close>

theorem failed_diagnosis_alert_resolved:
  "map_option (\<lambda>s. (statusOf ''alert-1000-1'' s, fixActionOf ''alert-1000-1'' s,
                     successMessages s))
     (exec (Some ''key'')
        (twoAlerts @
         [(3100, DiagnosisReturns 0 (Replies backfill)),
          (7100, ActionElapsed 0),
          (9100, ThinkingElapsed 0),
          (9200, DiagnosisReturns 0 (Replies backfill)),
          (9300, DiagnosisReturns 1 Raises)])
        mounted)
   = Some ([healing], [Some ''Manual intervention required''],
           [''Resolved alert: Glue OOM. Action Taken: Trigger Backfill'']) \<and>
   map_option (\<lambda>s. (map phase (healRuns s), statusOf ''alert-1000-1'' s,
                     fixActionOf ''alert-1000-1'' s, successMessages s))
     (exec (Some ''key'')
        (twoAlerts @
         [(3100, DiagnosisReturns 0 (Replies backfill)),
          (7100, ActionElapsed 0),
          (9100, ThinkingElapsed 0),
          (9200, DiagnosisReturns 0 (Replies backfill)),
          (9300, DiagnosisReturns 1 Raises),
          (13200, ActionElapsed 0),
          (13300, ActionElapsed 1)])
        mounted)
   = Some ([Finished, Finished], [resolved], [Some ''Manual intervention required''],
           [''Resolved alert: Glue OOM. Action Taken: Trigger Backfill'',
            ''Resolved alert: Pipe stalled. Action Taken: Trigger Backfill''])"
  by (simp add: machine_simps fixActionOf_def successMessages_def)

text \<open>
  Claim C6 fails on the code, through the same defect. In the first run of events the
  diagnosis of \<open>alert-1000-1\<close> reports success at 3500 ms and its healing sequence
  completes at 7500 ms with the alert resolved. At 7900 ms the first run marks the
  alert as healing again, its own diagnosis of the alert raises, and when every run has
  finished the alert whose diagnosis had succeeded is in status \<open>healing\<close> with the
  fallback action, although the Log Store says it was resolved (status of the alert at
  the start and after each event, then the final state). In the second run of events
  every diagnosis succeeds, and the Log Store gains two SUCCESS records for
  \<open>alert-1000-1\<close>, one from each run that healed it.
\<close>

theorem successful_alert_not_resolved_once:
  "map_option (map (statusOf ''alert-1000-1''))
     (observe (Some ''key'')
        (twoAlerts @
         [(3500, DiagnosisReturns 1 (Replies backfill)),
          (3900, DiagnosisReturns 0 (Replies backfill)),
          (7500, ActionElapsed 1),
          (7900, ActionElapsed 0),
          (9900, ThinkingElapsed 0),
          (10400, DiagnosisReturns 0 Raises),
          (14400, ActionElapsed 0)])
        mounted)
   = Some [[], [], [healing], [healing], [healing], [healing], [healing],
           [resolved], [healing], [healing], [healing], [healing]] \<and>
   map_option (\<lambda>s. (map phase (healRuns s), statusOf ''alert-1000-1'' s,
                     fixActionOf ''alert-1000-1'' s, successMessages s))
     (exec (Some ''key'')
        (twoAlerts @
         [(3500, DiagnosisReturns 1 (Replies backfill)),
          (3900, DiagnosisReturns 0 (Replies backfill)),
          (7500, ActionElapsed 1),
          (7900, ActionElapsed 0),
          (9900, ThinkingElapsed 0),
          (10400, DiagnosisReturns 0 Raises),
          (14400, ActionElapsed 0)])
        mounted)
   = Some ([Finished, Finished], [healing], [Some ''Manual intervention required''],
           [''Resolved alert: Pipe stalled. Action Taken: Trigger Backfill'',
            ''Resolved alert: Glue OOM. Action Taken: Trigger Backfill'']) \<and>
   map_option (\<lambda>s. (map phase (healRuns s), statusOf ''alert-1000-1'' s, successMessages s))
     (exec (Some ''key'')
        (twoAlerts @
         [(3500, DiagnosisReturns 1 (Replies backfill)),
          (3900, DiagnosisReturns 0 (Replies backfill)),
          (7500, ActionElapsed 1),
          (7900, ActionElapsed 0),
          (9900, ThinkingElapsed 0),
          (10400, DiagnosisReturns 0 (Replies backfill)),
          (14400, ActionElapsed 0)])
        mounted)
   = Some ([Finished, Finished], [resolved],
           [''Resolved alert: Pipe stalled. Action Taken: Trigger Backfill'',
            ''Resolved alert: Glue OOM. Action Taken: Trigger Backfill'',
            ''Resolved alert: Pipe stalled. Action Taken: Trigger Backfill''])"
  by (simp add: machine_simps fixActionOf_def successMessages_def)

section \<open>Further properties\<close>

text \<open>
  Every alert the detector returns is created with status \<open>active\<close>, with an empty
  sequence of thoughts and without a \<open>fixAction\<close>; none is created \<open>healing\<close> or
  \<open>resolved\<close>.
\<close>

theorem created_alerts_active:
  "\<forall>a \<in> set (analyzeForAlerts apiKey reply now logs).
     status a = active \<and> agentThoughts a = Some [] \<and> fixAction a = None"
  by (auto simp: analyzeForAlerts_def materialize_def split: Reply.splits)

theorem created_alerts_active_witness:
  "map status
     (analyzeForAlerts (Some ''key'')
        (Replies [mkDraft ''Glue OOM'' ''AWS Glue'', mkDraft ''Pipe stalled'' ''Snowflake''])
        1000 [mkLog ''ent-1'' ''AWS Glue'' ERROR])
   = [active, active]"
proof -
  let ?as = "analyzeForAlerts (Some ''key'')
        (Replies [mkDraft ''Glue OOM'' ''AWS Glue'', mkDraft ''Pipe stalled'' ''Snowflake''])
        1000 [mkLog ''ent-1'' ''AWS Glue'' ERROR]"
  have n: "length ?as = 2"
    by (simp add: analyzeForAlerts_def falsy_def problematic_def mkLog_def)
  from created_alerts_active [of "Some ''key''"
         "Replies [mkDraft ''Glue OOM'' ''AWS Glue'', mkDraft ''Pipe stalled'' ''Snowflake'']"
         1000 "[mkLog ''ent-1'' ''AWS Glue'' ERROR]"]
  have "\<forall>a \<in> set ?as. status a = active"
    by simp
  then have "map status ?as = replicate (length ?as) active"
    by (simp add: map_replicate_const [symmetric] cong: map_cong)
  with n show ?thesis
    by (simp add: numeral_2_eq_2)
qed

text \<open>
  When the healing effect has run, no stored alert is left \<open>active\<close>: each one has been
  marked as healing by a run that started with it.
\<close>

theorem healEffect_leaves_no_active:
  "filter (\<lambda>a. status a = active) (alertStore (healEffect s)) = []"
proof (induction s rule: healEffect.induct)
  case (1 s)
  show ?case
  proof (cases "filter (\<lambda>a. status a = active) (alertStore s)")
    case Nil
    then show ?thesis
      by (simp add: healEffect_none)
  next
    case (Cons alert rest)
    from "1" [OF Cons] Cons show ?thesis
      by (subst healEffect.simps) simp
  qed
qed

end
